theory Spec2Isabelle
  imports Complex_Main "HOL-Library.Multiset"
begin

section \<open>Texture analysis pipeline of TXM: the data model\<close>

text \<open>
  The development follows \<^verbatim>\<open>src/core/texture_processor.py\<close> (class
  \<^verbatim>\<open>TextureProcessor\<close>), \<^verbatim>\<open>src/core/texture_worker.py\<close> and
  \<^verbatim>\<open>src/core/texture_runner.py\<close>. Polish identifiers are written without
  diacritics (\<^verbatim>\<open>sciezka\<close> for the source's path field, and so on).

  Strings are byte lists. The field \<^verbatim>\<open>flaga\<close> of the source is a \<^verbatim>\<open>str\<close> that
  only ever holds the empty string or one of three fixed words; it is the datatype
  \<open>flaga\<close> here, \<open>Brak\<close> being the empty string. The same holds for the analysis tool
  and for the stage names of progress reports.

  The fields \<^verbatim>\<open>data_utworzenia\<close> and \<^verbatim>\<open>data_modyfikacji\<close> are written once, by
  \<^verbatim>\<open>strftime("%Y-%m-%d %H:%M:%S")\<close>, and read back only through \<^verbatim>\<open>strptime\<close> with the
  same format as a sort key. They are kept as the whole second that the key denotes,
  a natural number: the order of the keys is the order of these numbers.
\<close>

datatype flaga = Brak | Oryginal | MozliwyDuplikat | Duplikat

text \<open>
  The tool names of the source: the empty string (\<open>NieUzyto\<close>), \<^verbatim>\<open>"PIL"\<close>,
  \<^verbatim>\<open>"oiiotool"\<close>, the word for an error (\<open>Blad\<close>) and the word \<^verbatim>\<open>"brak"\<close> that the
  decoding backend returns when the library cannot be imported (\<open>BrakBiblioteki\<close>).
\<close>

datatype narzedzie = NieUzyto | PIL | Oiiotool | Blad | BrakBiblioteki

record MetadanePliku =
  sciezka :: string
  rozszerzenie :: string
  rozmiar_mb :: rat
  data_utworzenia :: nat
  data_modyfikacji :: nat
  hash_sha256 :: string
  szerokosc :: "int option"
  wysokosc :: "int option"
  kanal_alpha :: "bool option"
  glebia_bitowa :: "int option"
  profil_koloru :: "string option"
  flaga :: flaga
  id_grupy :: string
  narzedzie_analizy :: narzedzie
  blad_analizy :: string
  nazwa :: string

subsection \<open>Strings: decimal numerals, lower case, path functions\<close>

definition cyfra :: "nat \<Rightarrow> char" where
  "cyfra d = char_of (48 + d)"

fun cyfry :: "nat \<Rightarrow> string" where
  "cyfry n = (if n < 10 then [cyfra n] else cyfry (n div 10) @ [cyfra (n mod 10)])"

declare cyfry.simps [simp del]

text \<open>The format \<^verbatim>\<open>f"{n:02d}"\<close>: decimal, padded with zeros to at least two digits.\<close>

definition fmt02 :: "nat \<Rightarrow> string" where
  "fmt02 n = (if n < 10 then CHR ''0'' # cyfry n else cyfry n)"

text \<open>\<^verbatim>\<open>str.lower\<close> on the ASCII letters.\<close>

definition lower_char :: "char \<Rightarrow> char" where
  "lower_char c =
     (if 65 \<le> (of_char c :: nat) \<and> (of_char c :: nat) \<le> 90
      then char_of ((of_char c :: nat) + 32) else c)"

definition lower :: "string \<Rightarrow> string" where
  "lower s = map lower_char s"

text \<open>\<^verbatim>\<open>str.rfind\<close> of a single character: the last position, or \<open>-1\<close>.\<close>

definition rfind :: "char \<Rightarrow> string \<Rightarrow> int" where
  "rfind c p =
     (if c \<in> set p
      then int (length p) - 1 - int (length (takeWhile (\<lambda>x. x \<noteq> c) (rev p)))
      else - 1)"

text \<open>
  \<^verbatim>\<open>os.path.basename\<close> and \<^verbatim>\<open>os.path.splitext\<close> with the separator \<^verbatim>\<open>/\<close>
  (\<^verbatim>\<open>posixpath\<close>; \<^verbatim>\<open>genericpath._splitext\<close>). The loop of \<^verbatim>\<open>_splitext\<close> skips the
  leading dots of the file name: a name made of dots only has no extension.
\<close>

definition basename :: "string \<Rightarrow> string" where
  "basename p = drop (nat (rfind (CHR ''/'') p + 1)) p"

fun nie_tylko_kropki :: "string \<Rightarrow> bool" where
  "nie_tylko_kropki [] = False"
| "nie_tylko_kropki (c # cs) = (if c \<noteq> CHR ''.'' then True else nie_tylko_kropki cs)"

definition splitext :: "string \<Rightarrow> string \<times> string" where
  "splitext p =
     (let sepIndex = rfind (CHR ''/'') p;
          dotIndex = rfind (CHR ''.'') p
      in if dotIndex > sepIndex \<and>
            nie_tylko_kropki (take (nat dotIndex - nat (sepIndex + 1)) (drop (nat (sepIndex + 1)) p))
         then (take (nat dotIndex) p, drop (nat dotIndex) p)
         else (p, []))"

definition nazwa_bez_rozszerzenia :: "string \<Rightarrow> string" where
  "nazwa_bez_rozszerzenia p = fst (splitext (basename p))"

subsection \<open>Extension buckets\<close>

definition GRAFICZNE_ROZSZERZENIA :: "string list" where
  "GRAFICZNE_ROZSZERZENIA =
     [''.jpg'', ''.jpeg'', ''.png'', ''.gif'', ''.bmp'', ''.tiff'', ''.tif'', ''.webp'',
      ''.svg'', ''.exr'', ''.hdr'', ''.tx'', ''.tga'', ''.psd'', ''.heic'', ''.heif'',
      ''.dds'', ''.ico'', ''.raw'', ''.cr2'', ''.nef'']"

definition FORMATY_OIIOTOOL :: "string list" where
  "FORMATY_OIIOTOOL = [''.exr'', ''.hdr'', ''.tx'']"

text \<open>
  The name of the bucket of all other files, in UTF-8: the seventh letter of the
  source's word is the bytes \<open>0xC5 0x82\<close>.
\<close>

definition pozostale :: string where
  "pozostale = ''pozosta'' @ [char_of (197 :: nat), char_of (130 :: nat)] @ ''e''"

text \<open>The local function \<^verbatim>\<open>przetworz_plik\<close> of the discovery stage.\<close>

definition przetworz_plik :: "string \<Rightarrow> string \<times> string" where
  "przetworz_plik sciezka_pliku =
     (let rozsz = lower (snd (splitext sciezka_pliku))
      in (if rozsz \<in> set GRAFICZNE_ROZSZERZENIA then rozsz else pozostale, sciezka_pliku))"

subsection \<open>Dictionaries of lists, in insertion order\<close>

text \<open>
  The source groups with \<^verbatim>\<open>if k not in d: d[k] = []\<close> followed by
  \<^verbatim>\<open>d[k].append(v)\<close>, and later iterates \<^verbatim>\<open>d.items()\<close>, which is insertion order.
  The dictionary is an association list: a new key goes to the end.
\<close>

fun dodaj :: "'k \<Rightarrow> 'v \<Rightarrow> ('k \<times> 'v list) list \<Rightarrow> ('k \<times> 'v list) list" where
  "dodaj k v [] = [(k, [v])]"
| "dodaj k v ((k', vs) # d) =
     (if k = k' then (k', vs @ [v]) # d else (k', vs) # dodaj k v d)"

definition grupuj :: "('v \<Rightarrow> 'k) \<Rightarrow> 'v list \<Rightarrow> ('k \<times> 'v list) list" where
  "grupuj klucz xs = foldl (\<lambda>d x. dodaj (klucz x) x d) [] xs"

subsection \<open>Writing to a record at an index\<close>

text \<open>
  \<^verbatim>\<open>metadane_plikow[idx].pole = wartosc\<close>. Every index the passes write to comes from
  \<^verbatim>\<open>enumerate\<close> over the same list, so it is in range.
\<close>

definition ustaw :: "nat \<Rightarrow> (MetadanePliku \<Rightarrow> MetadanePliku) \<Rightarrow> MetadanePliku list \<Rightarrow> MetadanePliku list" where
  "ustaw idx f m = m[idx := f (m ! idx)]"

text \<open>\<^verbatim>\<open>grupa.sort(key=...)\<close> on the creation time: a stable sort.\<close>

definition sortuj_grupe :: "(nat \<times> MetadanePliku) list \<Rightarrow> (nat \<times> MetadanePliku) list" where
  "sortuj_grupe grupa = sort_key (\<lambda>x. data_utworzenia (snd x)) grupa"

section \<open>The name pass\<close>

text \<open>
  \<^verbatim>\<open>_oznacz_mozliwe_duplikaty\<close>: the second loop, for one entry of the dictionary.
  \<open>grupa[0]\<close> exists since the group has more than one member.
\<close>

definition oznacz_mozliwe_grupe :: "(nat \<times> MetadanePliku) list \<Rightarrow> MetadanePliku list \<Rightarrow> MetadanePliku list" where
  "oznacz_mozliwe_grupe grupa m =
     (if length grupa > 1
      then (let g = sortuj_grupe grupa;
                m1 = ustaw (fst (hd g)) (\<lambda>r. r\<lparr>flaga := Oryginal\<rparr>) m
            in foldl (\<lambda>m' x. ustaw (fst x) (\<lambda>r. r\<lparr>flaga := MozliwyDuplikat\<rparr>) m') m1 (tl g))
      else m)"

definition oznacz_mozliwe_duplikaty :: "MetadanePliku list \<Rightarrow> MetadanePliku list" where
  "oznacz_mozliwe_duplikaty metadane_plikow =
     (let grupy_plikow =
            grupuj (\<lambda>x. nazwa_bez_rozszerzenia (sciezka (snd x))) (enumerate 0 metadane_plikow)
      in foldl (\<lambda>m kv. oznacz_mozliwe_grupe (snd kv) m) metadane_plikow grupy_plikow)"

section \<open>The hash pass\<close>

text \<open>
  \<^verbatim>\<open>_oznacz_dokladne_duplikaty\<close>. The state of the loops is the list of records and
  the counter \<^verbatim>\<open>licznik_grup\<close>, which is set to zero once, before the loop over the
  extension buckets.
\<close>

definition oznacz_dokladna_grupe :: "nat \<Rightarrow> (nat \<times> MetadanePliku) list \<Rightarrow> MetadanePliku list \<Rightarrow> MetadanePliku list" where
  "oznacz_dokladna_grupe licznik g m =
     (let id = fmt02 licznik;
          m1 = ustaw (fst (hd g)) (\<lambda>r. r\<lparr>flaga := Oryginal, id_grupy := id @ ''-o''\<rparr>) m
      in foldl (\<lambda>m' jx. ustaw (fst (snd jx))
                  (\<lambda>r. r\<lparr>flaga := Duplikat, id_grupy := id @ ''-D'' @ cyfry (fst jx + 1)\<rparr>) m')
           m1 (enumerate 0 (tl g)))"

definition krok_hash :: "MetadanePliku list \<times> nat \<Rightarrow> (nat \<times> MetadanePliku) list \<Rightarrow> MetadanePliku list \<times> nat" where
  "krok_hash s grupa =
     (if length grupa > 1
      then (oznacz_dokladna_grupe (snd s + 1) (sortuj_grupe grupa) (fst s), snd s + 1)
      else s)"

definition krok_rozszerzenie :: "MetadanePliku list \<times> nat \<Rightarrow> (nat \<times> MetadanePliku) list \<Rightarrow> MetadanePliku list \<times> nat" where
  "krok_rozszerzenie s pliki =
     (let hashe = grupuj (\<lambda>x. hash_sha256 (snd x)) pliki
      in foldl (\<lambda>s' kv. krok_hash s' (snd kv)) s hashe)"

definition pliki_wedlug_rozszerzen :: "MetadanePliku list \<Rightarrow> (string \<times> (nat \<times> MetadanePliku) list) list" where
  "pliki_wedlug_rozszerzen metadane_plikow =
     grupuj (\<lambda>x. rozszerzenie (snd x))
       (filter (\<lambda>x. hash_sha256 (snd x) \<noteq> []) (enumerate 0 metadane_plikow))"

definition oznacz_dokladne_duplikaty :: "MetadanePliku list \<Rightarrow> MetadanePliku list" where
  "oznacz_dokladne_duplikaty metadane_plikow =
     fst (foldl (\<lambda>s kv. krok_rozszerzenie s (snd kv)) (metadane_plikow, 0)
            (pliki_wedlug_rozszerzen metadane_plikow))"

section \<open>The environment and the stages around the two passes\<close>

text \<open>
  What the pipeline reads from outside is a record of functions: the directory test,
  the enumeration of a folder (\<^verbatim>\<open>os.walk\<close>, or \<^verbatim>\<open>os.listdir\<close> filtered by
  \<^verbatim>\<open>os.path.isfile\<close>, as joined paths in enumeration order), \<^verbatim>\<open>os.stat\<close> (the size
  already in rounded megabytes and the two times in whole seconds; \<open>None\<close> when it
  raises), the bytes of a file (\<open>None\<close> when reading raises), the digest of
  \<^verbatim>\<open>hashlib.sha256\<close> in hexadecimal, the outcome of the probe of the external tool, and
  the two metadata backends. Both backends catch every exception themselves and answer
  with a triple (data or \<^verbatim>\<open>None\<close>, tool, error text).
\<close>

record dane_graficzne =
  d_szerokosc :: "int option"
  d_wysokosc :: "int option"
  d_kanal_alpha :: "bool option"
  d_glebia_bitowa :: "int option"
  d_profil_koloru :: "string option"

type_synonym wynik_narzedzia = "dane_graficzne option \<times> narzedzie \<times> string"

record srodowisko =
  isdir :: "string \<Rightarrow> bool"
  pliki_folderu :: "string \<Rightarrow> bool \<Rightarrow> string list"
  stat_pliku :: "string \<Rightarrow> (rat \<times> nat \<times> nat) option"
  zawartosc :: "string \<Rightarrow> string option"
  sha256_hex :: "string \<Rightarrow> string"
  oiiotool_dostepny :: bool
  pobierz_metadane_oiiotool :: "MetadanePliku \<Rightarrow> wynik_narzedzia"
  pobierz_metadane_pil :: "MetadanePliku \<Rightarrow> wynik_narzedzia"

subsection \<open>Discovery and base metadata\<close>

text \<open>
  \<^verbatim>\<open>_znajdz_i_posortuj_pliki\<close>: \<^verbatim>\<open>executor.map\<close> yields in the order of its input, and
  each path is appended to the list of its bucket.
\<close>

definition znajdz_i_posortuj_pliki :: "srodowisko \<Rightarrow> string \<Rightarrow> bool \<Rightarrow> (string \<times> string list) list" where
  "znajdz_i_posortuj_pliki env sciezka_folderu przeszukuj_podfoldery =
     foldl (\<lambda>d ks. dodaj (fst ks) (snd ks) d) []
       (map przetworz_plik (pliki_folderu env sciezka_folderu przeszukuj_podfoldery))"

definition utworz_metadane_pliku :: "srodowisko \<Rightarrow> string \<times> string \<Rightarrow> MetadanePliku option" where
  "utworz_metadane_pliku env args =
     (case stat_pliku env (fst args) of
        None \<Rightarrow> None
      | Some st \<Rightarrow>
          Some \<lparr>sciezka = fst args, rozszerzenie = snd args, rozmiar_mb = fst st,
                data_utworzenia = fst (snd st), data_modyfikacji = snd (snd st),
                hash_sha256 = [], szerokosc = None, wysokosc = None, kanal_alpha = None,
                glebia_bitowa = None, profil_koloru = None, flaga = Brak, id_grupy = [],
                narzedzie_analizy = NieUzyto, blad_analizy = [],
                nazwa = basename (fst args)\<rparr>)"

text \<open>
  \<^verbatim>\<open>_utworz_podstawowe_metadane\<close>: the buckets are flattened in the order of the
  dictionary, and a record is appended for every file whose \<^verbatim>\<open>os.stat\<close> succeeded.
\<close>

definition wszystkie_pliki :: "(string \<times> string list) list \<Rightarrow> (string \<times> string) list" where
  "wszystkie_pliki d = concat (map (\<lambda>kv. map (\<lambda>s. (s, fst kv)) (snd kv)) d)"

definition utworz_podstawowe_metadane :: "srodowisko \<Rightarrow> (string \<times> string list) list \<Rightarrow> MetadanePliku list" where
  "utworz_podstawowe_metadane env d =
     foldl (\<lambda>metadane args.
              case utworz_metadane_pliku env args of
                None \<Rightarrow> metadane
              | Some metadane_pliku \<Rightarrow> metadane @ [metadane_pliku])
       [] (wszystkie_pliki d)"

subsection \<open>Hashing\<close>

definition oblicz_hash_pliku :: "srodowisko \<Rightarrow> nat \<times> MetadanePliku \<Rightarrow> nat \<times> string" where
  "oblicz_hash_pliku env index_meta =
     (case zawartosc env (sciezka (snd index_meta)) of
        None \<Rightarrow> (fst index_meta, [])
      | Some bajty \<Rightarrow> (fst index_meta, sha256_hex env bajty))"

definition oblicz_hashe :: "srodowisko \<Rightarrow> MetadanePliku list \<Rightarrow> MetadanePliku list" where
  "oblicz_hashe env metadane_plikow =
     foldl (\<lambda>m ih. ustaw (fst ih) (\<lambda>r. r\<lparr>hash_sha256 := snd ih\<rparr>) m) metadane_plikow
       (map (oblicz_hash_pliku env) (enumerate 0 metadane_plikow))"

subsection \<open>Image metadata and the tool counters\<close>

record stats_narzedzia =
  s_oiiotool :: nat
  s_PIL :: nat
  s_brak :: nat
  s_blad :: nat
  formaty_oiiotool_poprawnie :: nat
  formaty_oiiotool_niepoprawnie :: nat

definition stats_poczatkowe :: stats_narzedzia where
  "stats_poczatkowe =
     \<lparr>s_oiiotool = 0, s_PIL = 0, s_brak = 0, s_blad = 0,
      formaty_oiiotool_poprawnie = 0, formaty_oiiotool_niepoprawnie = 0\<rparr>"

text \<open>
  \<^verbatim>\<open>_pobierz_metadane_graficzne_pliku\<close>: the external tool first when the probe found
  it, the decoding library when the tool is absent or gave no data.
\<close>

definition pobierz_metadane_graficzne_pliku ::
  "srodowisko \<Rightarrow> nat \<times> MetadanePliku \<Rightarrow> nat \<times> dane_graficzne option \<times> narzedzie \<times> string" where
  "pobierz_metadane_graficzne_pliku env index_meta =
     (if rozszerzenie (snd index_meta) = pozostale then (fst index_meta, None, NieUzyto, [])
      else if oiiotool_dostepny env \<and> fst (pobierz_metadane_oiiotool env (snd index_meta)) \<noteq> None
      then (fst index_meta, pobierz_metadane_oiiotool env (snd index_meta))
      else (fst index_meta, pobierz_metadane_pil env (snd index_meta)))"

definition wpisz_dane :: "dane_graficzne \<Rightarrow> MetadanePliku \<Rightarrow> MetadanePliku" where
  "wpisz_dane d r =
     r\<lparr>szerokosc := d_szerokosc d, wysokosc := d_wysokosc d, kanal_alpha := d_kanal_alpha d,
       glebia_bitowa := d_glebia_bitowa d, profil_koloru := d_profil_koloru d\<rparr>"

text \<open>
  One round of the loop over \<^verbatim>\<open>as_completed(futures)\<close>. The dictionary of counters
  has no key \<^verbatim>\<open>formaty_pil\<close>: the last branch raises \<^verbatim>\<open>KeyError\<close> after the record
  has been written, and the handler of the loop adds one to the error counter.
\<close>

definition krok_metadane ::
  "MetadanePliku list \<times> stats_narzedzia \<Rightarrow> nat \<times> dane_graficzne option \<times> narzedzie \<times> string
   \<Rightarrow> MetadanePliku list \<times> stats_narzedzia" where
  "krok_metadane s wynik =
     (case fst (snd wynik) of
        None \<Rightarrow> s
      | Some metadane \<Rightarrow>
          (let m1 = ustaw (fst wynik)
                      (\<lambda>r. (wpisz_dane metadane r)\<lparr>narzedzie_analizy := fst (snd (snd wynik))\<rparr>) (fst s)
           in if snd (snd (snd wynik)) \<noteq> []
              then (ustaw (fst wynik) (\<lambda>r. r\<lparr>blad_analizy := snd (snd (snd wynik))\<rparr>) m1,
                    (snd s)\<lparr>s_blad := s_blad (snd s) + 1\<rparr>)
              else if fst (snd (snd wynik)) = Oiiotool
              then (m1, (snd s)\<lparr>formaty_oiiotool_poprawnie := formaty_oiiotool_poprawnie (snd s) + 1\<rparr>)
              else (m1, (snd s)\<lparr>s_blad := s_blad (snd s) + 1\<rparr>)))"

text \<open>
  \<^verbatim>\<open>_pobierz_metadane_graficzne\<close>. Every task is submitted with its index before any
  result is read; \<open>kolejnosc\<close> is the order in which the tasks complete, a permutation
  of the indices.
\<close>

definition pobierz_metadane_graficzne ::
  "srodowisko \<Rightarrow> nat list \<Rightarrow> MetadanePliku list \<Rightarrow> MetadanePliku list \<times> stats_narzedzia" where
  "pobierz_metadane_graficzne env kolejnosc metadane_plikow =
     (let futures = map (pobierz_metadane_graficzne_pliku env) (enumerate 0 metadane_plikow)
      in foldl krok_metadane (metadane_plikow, stats_poczatkowe)
           (map (\<lambda>i. futures ! i) kolejnosc))"

section \<open>Progress reports and the orchestration\<close>

text \<open>
  \<^verbatim>\<open>_raportuj_status\<close> builds a \<^verbatim>\<open>StatusPostepu\<close> and calls the callback with it; what
  the callback returns is dropped there, and no stage reads anything back from it. The
  reports of a run are therefore a list beside the data: the stage, and the progress as
  an exact fraction (the message text is left out). All reports are made by the thread
  that runs the stages, in the order below.
\<close>

datatype etap =
  Wyszukiwanie | MetadanePodstawowe | MozliweDuplikaty | Hash | DokladneDuplikaty
  | MetadaneGraficzne | Zakonczono

type_synonym raport = "etap \<times> rat"

text \<open>
  A loop over \<open>n\<close> items that reports when \<^verbatim>\<open>i % co == 0 or i == n - 1\<close>, with the
  progress \<open>f ((i + 1) / n)\<close>.
\<close>

definition raporty_petli :: "etap \<Rightarrow> nat \<Rightarrow> nat \<Rightarrow> (rat \<Rightarrow> rat) \<Rightarrow> raport list" where
  "raporty_petli e co n f =
     map (\<lambda>i. (e, f (of_nat (i + 1) / of_nat n)))
       (filter (\<lambda>i. i mod co = 0 \<or> i + 1 = n) [0..<n])"

record wyniki =
  sukces :: "bool option"
  komunikat :: "string option"
  pliki :: "MetadanePliku list option"
  narzedzia_analizy :: "stats_narzedzia option"

text \<open>
  The method \<^verbatim>\<open>TextureProcessor.przetwarzaj_folder\<close>: the six stages in sequence, each
  on the whole output of the one before. Of the result dictionary the record keeps the
  list of files and the tool counters of the statistics; the keys \<^verbatim>\<open>sukces\<close> and
  \<^verbatim>\<open>komunikat\<close> are absent from it.
\<close>

definition przetwarzaj_folder ::
  "srodowisko \<Rightarrow> string \<Rightarrow> bool \<Rightarrow> nat list \<Rightarrow> wyniki \<times> raport list" where
  "przetwarzaj_folder env sciezka_folderu przeszukuj_podfoldery kolejnosc =
     (let znalezione = pliki_folderu env sciezka_folderu przeszukuj_podfoldery;
          wedlug = znajdz_i_posortuj_pliki env sciezka_folderu przeszukuj_podfoldery;
          m0 = utworz_podstawowe_metadane env wedlug;
          m1 = oznacz_mozliwe_duplikaty m0;
          m2 = oblicz_hashe env m1;
          m3 = oznacz_dokladne_duplikaty m2;
          koniec = pobierz_metadane_graficzne env kolejnosc m3
      in (\<lparr>sukces = None, komunikat = None, pliki = Some (fst koniec),
           narzedzia_analizy = Some (snd koniec)\<rparr>,
          [(Wyszukiwanie, 0)]
          @ raporty_petli Wyszukiwanie 50 (length znalezione) (\<lambda>p. p)
          @ [(MetadanePodstawowe, 0)]
          @ raporty_petli MetadanePodstawowe 50 (length (wszystkie_pliki wedlug)) (\<lambda>p. p)
          @ [(MozliweDuplikaty, 0)]
          @ raporty_petli MozliweDuplikaty 100 (length m0) (\<lambda>p. p * (1 / 2))
          @ raporty_petli MozliweDuplikaty 50
              (length (grupuj (\<lambda>x. nazwa_bez_rozszerzenia (sciezka (snd x))) (enumerate 0 m0)))
              (\<lambda>p. 1 / 2 + p * (1 / 2))
          @ [(Hash, 0)]
          @ raporty_petli Hash 20 (length m1) (\<lambda>p. p)
          @ [(DokladneDuplikaty, 0)]
          @ raporty_petli DokladneDuplikaty 100 (length m2) (\<lambda>p. p * (3 / 10))
          @ raporty_petli DokladneDuplikaty 1 (length (pliki_wedlug_rozszerzen m2))
              (\<lambda>p. 3 / 10 + p * (7 / 10))
          @ [(MetadaneGraficzne, 0), (Zakonczono, 1)]))"

datatype wyjatek = ValueError string

text \<open>
  The module function \<^verbatim>\<open>przetwarzaj_folder_tekstur\<close>, called without an output path
  (as the worker calls it for the runner): it raises when the path is not a directory.
\<close>

definition przetwarzaj_folder_tekstur ::
  "srodowisko \<Rightarrow> string \<Rightarrow> bool \<Rightarrow> nat list \<Rightarrow> wyjatek + wyniki \<times> raport list" where
  "przetwarzaj_folder_tekstur env sciezka_folderu przeszukuj_podfoldery kolejnosc =
     (if \<not> isdir env sciezka_folderu
      then Inl (ValueError
             (''Podana '' @ [char_of (197 :: nat), char_of (155 :: nat)] @ ''cie''
              @ [char_of (197 :: nat), char_of (188 :: nat)] @ ''ka '' @ [char_of (39 :: nat)]
              @ sciezka_folderu @ [char_of (39 :: nat)]
              @ '' nie jest folderem lub nie istnieje.''))
      else Inr (przetwarzaj_folder env sciezka_folderu przeszukuj_podfoldery kolejnosc))"

subsection \<open>The worker\<close>

text \<open>
  \<^verbatim>\<open>TextureWorker.przetwarzaj_folder\<close> hands the processor a wrapper of the caller's
  callback. The wrapper sets the cell \<^verbatim>\<open>canceled[0]\<close> when the callback returns
  \<^verbatim>\<open>False\<close> (\<open>False\<close> here; \<open>True\<close> stands for any other value). The cell is read once,
  after the processor has returned.
\<close>

definition anulowano :: "(raport \<Rightarrow> bool) \<Rightarrow> raport list \<Rightarrow> bool" where
  "anulowano callback raporty = foldl (\<lambda>canceled r. if \<not> callback r then True else canceled) False raporty"

definition komunikat_anulowania :: string where
  "komunikat_anulowania =
     ''Operacja anulowana przez u'' @ [char_of (197 :: nat), char_of (188 :: nat)] @ ''ytkownika''"

definition worker_przetwarzaj_folder ::
  "srodowisko \<Rightarrow> (raport \<Rightarrow> bool) \<Rightarrow> string \<Rightarrow> bool \<Rightarrow> nat list \<Rightarrow> wyjatek + wyniki" where
  "worker_przetwarzaj_folder env callback sciezka_folderu przeszukuj_podfoldery kolejnosc =
     (case przetwarzaj_folder_tekstur env sciezka_folderu przeszukuj_podfoldery kolejnosc of
        Inl e \<Rightarrow> Inl e
      | Inr wr \<Rightarrow>
          if anulowano callback (snd wr)
          then Inr \<lparr>sukces = Some False, komunikat = Some komunikat_anulowania,
                    pliki = None, narzedzia_analizy = None\<rparr>
          else Inr (fst wr))"

subsection \<open>The runner\<close>

text \<open>
  \<^verbatim>\<open>analizuj_folder_tekstur\<close>. Without a callback the runner installs
  \<^verbatim>\<open>aktualizacja_statusu\<close>, which always returns \<^verbatim>\<open>True\<close>. Creating the report folder
  and writing the statistics file are taken to succeed.
\<close>

definition wyjatek_str :: "wyjatek \<Rightarrow> string" where
  "wyjatek_str e = (case e of ValueError s \<Rightarrow> s)"

definition analizuj_folder_tekstur ::
  "srodowisko \<Rightarrow> (raport \<Rightarrow> bool) option \<Rightarrow> string \<Rightarrow> bool \<Rightarrow> nat list \<Rightarrow> wyniki" where
  "analizuj_folder_tekstur env callback_statusu sciezka_folderu przeszukuj_podfoldery kolejnosc =
     (if \<not> isdir env sciezka_folderu
      then \<lparr>sukces = Some False,
            komunikat = Some (''Podany folder nie istnieje: '' @ sciezka_folderu),
            pliki = None, narzedzia_analizy = None\<rparr>
      else (case worker_przetwarzaj_folder env
                   (case callback_statusu of None \<Rightarrow> (\<lambda>r. True) | Some cb \<Rightarrow> cb)
                   sciezka_folderu przeszukuj_podfoldery kolejnosc of
              Inl e \<Rightarrow>
                \<lparr>sukces = Some False,
                 komunikat = Some (''B'' @ [char_of (197 :: nat), char_of (130 :: nat),
                                           char_of (196 :: nat), char_of (133 :: nat)]
                                   @ ''d podczas przetwarzania: '' @ wyjatek_str e),
                 pliki = None, narzedzia_analizy = None\<rparr>
            | Inr w \<Rightarrow> w\<lparr>sukces := Some True\<rparr>))"

section \<open>Notions used to state the properties\<close>

text \<open>
  None of the definitions from here on is part of the program. \<open>pierwsze\<close> lists the
  keys of a list in the order of their first occurrence, which is the order of the keys
  of a dictionary filled in one loop, and \<open>kategoria\<close> is the bucket that discovery gives
  a path.
\<close>

definition pierwsze :: "'a list \<Rightarrow> 'a list" where
  "pierwsze ks = rev (remdups (rev ks))"

definition kategoria :: "string \<Rightarrow> string" where
  "kategoria p = fst (przetworz_plik p)"

text \<open>
  For the name pass: two records have the same name when their paths have the same file
  name without extension, and a record is the oldest of its name when every record of
  that name is created later, or at the same second and found no earlier.
\<close>

definition ta_sama_nazwa :: "MetadanePliku list \<Rightarrow> nat \<Rightarrow> nat \<Rightarrow> bool" where
  "ta_sama_nazwa recs i j \<longleftrightarrow>
     nazwa_bez_rozszerzenia (sciezka (recs ! j)) = nazwa_bez_rozszerzenia (sciezka (recs ! i))"

definition najstarszy :: "MetadanePliku list \<Rightarrow> nat \<Rightarrow> bool" where
  "najstarszy recs i \<longleftrightarrow>
     (\<forall>j < length recs. ta_sama_nazwa recs i j \<longrightarrow>
        data_utworzenia (recs ! i) < data_utworzenia (recs ! j)
        \<or> (data_utworzenia (recs ! i) = data_utworzenia (recs ! j) \<and> i \<le> j))"

text \<open>
  For the hash pass: \<open>grupy_hash\<close> is the list of all hash groups in the order in which
  the two nested loops visit them (bucket after bucket, within a bucket hash after hash),
  and \<open>grupy_duplikatow\<close> are those with more than one member, each sorted as the pass
  sorts it. \<open>numer_grupy\<close> is the part of a group id before the first hyphen, the way
  \<^verbatim>\<open>_generuj_statystyki\<close> reads it (\<^verbatim>\<open>id_grupy.split("-")[0]\<close>).
\<close>

definition grupy_hash :: "MetadanePliku list \<Rightarrow> (nat \<times> MetadanePliku) list list" where
  "grupy_hash recs =
     concat (map (\<lambda>kv. map snd (grupuj (\<lambda>x. hash_sha256 (snd x)) (snd kv)))
               (pliki_wedlug_rozszerzen recs))"

definition grupy_duplikatow :: "MetadanePliku list \<Rightarrow> (nat \<times> MetadanePliku) list list" where
  "grupy_duplikatow recs = map sortuj_grupe (filter (\<lambda>g. 1 < length g) (grupy_hash recs))"

definition numer_grupy :: "string \<Rightarrow> string" where
  "numer_grupy s = takeWhile (\<lambda>c. c \<noteq> CHR ''-'') s"

text \<open>
  A record of a list has a duplicate when its hash is not empty and another record of
  the list has the same hash and the same extension bucket: these are the records that
  a hash group of more than one member contains.
\<close>

definition ma_duplikat :: "MetadanePliku list \<Rightarrow> nat \<Rightarrow> bool" where
  "ma_duplikat recs i \<longleftrightarrow>
     hash_sha256 (recs ! i) \<noteq> []
     \<and> (\<exists>j < length recs. j \<noteq> i \<and> hash_sha256 (recs ! j) = hash_sha256 (recs ! i)
            \<and> rozszerzenie (recs ! j) = rozszerzenie (recs ! i))"

text \<open>
  For the whole pipeline: the records as the hash pass receives them, and the final list
  of files, which \<open>przetwarzaj_folder\<close> returns under the key \<^verbatim>\<open>pliki\<close>.
\<close>

definition metadane_z_hashami :: "srodowisko \<Rightarrow> string \<Rightarrow> bool \<Rightarrow> MetadanePliku list" where
  "metadane_z_hashami env sciezka_folderu przeszukuj_podfoldery =
     oblicz_hashe env (oznacz_mozliwe_duplikaty
       (utworz_podstawowe_metadane env
          (znajdz_i_posortuj_pliki env sciezka_folderu przeszukuj_podfoldery)))"

definition pliki_koncowe :: "srodowisko \<Rightarrow> string \<Rightarrow> bool \<Rightarrow> nat list \<Rightarrow> MetadanePliku list" where
  "pliki_koncowe env sciezka_folderu przeszukuj_podfoldery kolejnosc =
     fst (pobierz_metadane_graficzne env kolejnosc
            (oznacz_dokladne_duplikaty (metadane_z_hashami env sciezka_folderu przeszukuj_podfoldery)))"

subsection \<open>Writes of a pass as a list\<close>

text \<open>
  \<open>zastosuj\<close> makes a list of writes (index and update) one after the other. The
  \<open>przypisania\<close> functions list the writes of a pass for one group, and \<open>znacznik\<close> is the
  update of the hash pass for the member at position \<open>p\<close> of the group with a given
  number. \<open>zbierz\<close> is the grouping loop with separate functions for key and value.
\<close>

definition zbierz :: "('x \<Rightarrow> 'k) \<Rightarrow> ('x \<Rightarrow> 'v) \<Rightarrow> 'x list \<Rightarrow> ('k \<times> 'v list) list" where
  "zbierz kf vf xs = foldl (\<lambda>d x. dodaj (kf x) (vf x) d) [] xs"

definition zastosuj :: "(nat \<times> (MetadanePliku \<Rightarrow> MetadanePliku)) list \<Rightarrow> MetadanePliku list \<Rightarrow> MetadanePliku list" where
  "zastosuj ps m = foldl (\<lambda>m' a. ustaw (fst a) (snd a) m') m ps"

definition klucz_nazwy :: "nat \<times> MetadanePliku \<Rightarrow> string" where
  "klucz_nazwy x = nazwa_bez_rozszerzenia (sciezka (snd x))"

definition przypisania_nazw :: "(nat \<times> MetadanePliku) list \<Rightarrow> (nat \<times> (MetadanePliku \<Rightarrow> MetadanePliku)) list" where
  "przypisania_nazw grupa =
     (if length grupa > 1
      then (fst (hd (sortuj_grupe grupa)), \<lambda>r. r\<lparr>flaga := Oryginal\<rparr>)
           # map (\<lambda>x. (fst x, \<lambda>r. r\<lparr>flaga := MozliwyDuplikat\<rparr>)) (tl (sortuj_grupe grupa))
      else [])"

definition przypisania_hash :: "nat \<Rightarrow> (nat \<times> MetadanePliku) list \<Rightarrow> (nat \<times> (MetadanePliku \<Rightarrow> MetadanePliku)) list" where
  "przypisania_hash licznik g =
     (fst (hd g), \<lambda>r. r\<lparr>flaga := Oryginal, id_grupy := fmt02 licznik @ ''-o''\<rparr>)
     # map (\<lambda>jx. (fst (snd jx),
                  \<lambda>r. r\<lparr>flaga := Duplikat, id_grupy := fmt02 licznik @ ''-D'' @ cyfry (fst jx + 1)\<rparr>))
         (enumerate 0 (tl g))"

definition przypisania_grup :: "nat \<Rightarrow> (nat \<times> MetadanePliku) list list \<Rightarrow> (nat \<times> (MetadanePliku \<Rightarrow> MetadanePliku)) list" where
  "przypisania_grup c gs =
     concat (map (\<lambda>jg. przypisania_hash (fst jg + 1) (snd jg)) (enumerate c gs))"

definition znacznik :: "nat \<Rightarrow> nat \<Rightarrow> MetadanePliku \<Rightarrow> MetadanePliku" where
  "znacznik numer p r =
     (if p = 0 then r\<lparr>flaga := Oryginal, id_grupy := fmt02 numer @ ''-o''\<rparr>
      else r\<lparr>flaga := Duplikat, id_grupy := fmt02 numer @ ''-D'' @ cyfry p\<rparr>)"

subsection \<open>Concrete inputs\<close>

text \<open>
  A folder \<^verbatim>\<open>/d\<close> with six files: \<^verbatim>\<open>a.png\<close> and \<^verbatim>\<open>a.jpg\<close> share the name and differ in
  content, \<^verbatim>\<open>b.png\<close> and \<^verbatim>\<open>c.png\<close> have the same content, and so have \<^verbatim>\<open>x.txt\<close> and
  \<^verbatim>\<open>y.doc\<close>. The external tool is absent and the decoding library succeeds on every
  file; in \<open>env_awaria\<close> it fails on every file. The digest is a stand-in that is
  injective on the contents used.
\<close>

definition dane_przykladowe :: dane_graficzne where
  "dane_przykladowe =
     \<lparr>d_szerokosc = Some 64, d_wysokosc = Some 32, d_kanal_alpha = Some False,
      d_glebia_bitowa = Some 8, d_profil_koloru = Some ''sRGB''\<rparr>"

definition env_przyklad :: srodowisko where
  "env_przyklad =
     \<lparr>isdir = (\<lambda>p. p = ''/d''),
      pliki_folderu = (\<lambda>p r. if p = ''/d''
         then [''/d/a.png'', ''/d/a.jpg'', ''/d/b.png'', ''/d/c.png'', ''/d/x.txt'', ''/d/y.doc'']
         else []),
      stat_pliku = (\<lambda>p. if p = ''/d/a.png'' then Some (1, 1, 1)
                        else if p = ''/d/a.jpg'' then Some (1, 2, 2)
                        else if p = ''/d/b.png'' then Some (1, 3, 3)
                        else if p = ''/d/c.png'' then Some (1, 4, 4)
                        else if p = ''/d/x.txt'' then Some (1, 5, 5)
                        else if p = ''/d/y.doc'' then Some (1, 6, 6)
                        else None),
      zawartosc = (\<lambda>p. if p = ''/d/a.png'' then Some ''A''
                       else if p = ''/d/a.jpg'' then Some ''B''
                       else if p = ''/d/b.png'' \<or> p = ''/d/c.png'' then Some ''C''
                       else if p = ''/d/x.txt'' \<or> p = ''/d/y.doc'' then Some ''D''
                       else None),
      sha256_hex = (\<lambda>bajty. ''sha:'' @ bajty),
      oiiotool_dostepny = False,
      pobierz_metadane_oiiotool = (\<lambda>m. (None, Blad, ''oiiotool'')),
      pobierz_metadane_pil = (\<lambda>m. (Some dane_przykladowe, PIL, []))\<rparr>"

definition env_awaria :: srodowisko where
  "env_awaria = env_przyklad\<lparr>pobierz_metadane_pil := (\<lambda>m. (None, Blad, ''PIL: cannot identify image file''))\<rparr>"

text \<open>
  A folder in which discovery finds \<^verbatim>\<open>x.png\<close>, then \<^verbatim>\<open>a.jpg\<close>, then \<^verbatim>\<open>a.png\<close>, all
  three created at the same second and each with a content of its own.
\<close>

definition env_remis :: srodowisko where
  "env_remis =
     \<lparr>isdir = (\<lambda>p. p = ''/d''),
      pliki_folderu = (\<lambda>p r. if p = ''/d'' then [''/d/x.png'', ''/d/a.jpg'', ''/d/a.png''] else []),
      stat_pliku = (\<lambda>p. if p = ''/d/x.png'' \<or> p = ''/d/a.jpg'' \<or> p = ''/d/a.png''
                        then Some (1, 7, 7) else None),
      zawartosc = (\<lambda>p. Some p),
      sha256_hex = (\<lambda>bajty. ''sha:'' @ bajty),
      oiiotool_dostepny = False,
      pobierz_metadane_oiiotool = (\<lambda>m. (None, Blad, ''oiiotool'')),
      pobierz_metadane_pil = (\<lambda>m. (Some dane_przykladowe, PIL, []))\<rparr>"

definition kolejnosc_przyklad :: "nat list" where
  "kolejnosc_przyklad = [5, 3, 0, 4, 1, 2]"

definition przerwij_przy_hash :: "raport \<Rightarrow> bool" where
  "przerwij_przy_hash r = (fst r \<noteq> Hash)"

definition opis :: "MetadanePliku \<Rightarrow> string \<times> flaga \<times> string \<times> string \<times> narzedzie" where
  "opis x = (sciezka x, flaga x, id_grupy x, hash_sha256 x, narzedzie_analizy x)"

text \<open>
  Lists of records for the two passes on their own. In \<open>przyklad_foldery\<close> four files
  in three folders share the name \<^verbatim>\<open>a\<close>, one of them without an extension, and two of
  them have the same creation time.
\<close>

definition rekord :: "string \<Rightarrow> string \<Rightarrow> nat \<Rightarrow> string \<Rightarrow> flaga \<Rightarrow> MetadanePliku" where
  "rekord p e t h f =
     \<lparr>sciezka = p, rozszerzenie = e, rozmiar_mb = 1, data_utworzenia = t, data_modyfikacji = t,
      hash_sha256 = h, szerokosc = None, wysokosc = None, kanal_alpha = None,
      glebia_bitowa = None, profil_koloru = None, flaga = f, id_grupy = [],
      narzedzie_analizy = NieUzyto, blad_analizy = [], nazwa = basename p\<rparr>"

definition przyklad_foldery :: "MetadanePliku list" where
  "przyklad_foldery =
     [rekord ''/e/sub/a.jpg'' ''.jpg'' 5 [] Brak,
      rekord ''/f/a'' pozostale 9 [] Brak,
      rekord ''/d/a.png'' ''.png'' 3 [] Brak,
      rekord ''/d/a.gif'' ''.gif'' 3 [] Brak,
      rekord ''/d/b.png'' ''.png'' 3 [] Brak]"

definition przyklad_hash :: "MetadanePliku list" where
  "przyklad_hash =
     [rekord ''/d/c.png'' ''.png'' 5 ''aa'' MozliwyDuplikat,
      rekord ''/d/u.png'' ''.png'' 4 [] Brak,
      rekord ''/d/b.png'' ''.png'' 3 ''aa'' Brak,
      rekord ''/d/c.jpg'' ''.jpg'' 1 ''aa'' Oryginal,
      rekord ''/d/d.jpg'' ''.jpg'' 1 ''aa'' Brak]"

definition jeden_png :: "MetadanePliku list" where
  "jeden_png = [rekord ''/d/a.png'' ''.png'' 1 ''sha:A'' Brak]"

section \<open>Lemmas\<close>

subsection \<open>Path functions on paths of a known shape\<close>

lemma rfind_ostatni:
  assumes "c \<notin> set ys"
  shows "rfind c (xs @ c # ys) = int (length xs)"
proof -
  have "takeWhile (\<lambda>x. x \<noteq> c) (rev ys @ c # rev xs)
          = rev ys @ takeWhile (\<lambda>x. x \<noteq> c) (c # rev xs)"
    by (rule takeWhile_append2) (use assms in auto)
  then have "takeWhile (\<lambda>x. x \<noteq> c) (rev ys @ c # rev xs) = rev ys"
    by simp
  then show ?thesis
    by (simp add: rfind_def)
qed

lemma rfind_brak: "c \<notin> set p \<Longrightarrow> rfind c p = - 1"
  by (simp add: rfind_def)

lemma basename_w_folderze:
  assumes "CHR ''/'' \<notin> set n"
  shows "basename (d @ ''/'' @ n) = n"
proof -
  have "rfind (CHR ''/'') (d @ CHR ''/'' # n) = int (length d)"
    using assms by (rule rfind_ostatni)
  moreover have "nat (int (length d) + 1) = Suc (length d)"
    by simp
  ultimately show ?thesis
    by (simp add: basename_def)
qed

lemma nie_tylko_kropki_iff: "nie_tylko_kropki n \<longleftrightarrow> (\<exists>c \<in> set n. c \<noteq> CHR ''.'')"
  by (induction n) auto

lemma splitext_z_rozszerzeniem:
  assumes "CHR ''/'' \<notin> set n" "CHR ''/'' \<notin> set e" "CHR ''.'' \<notin> set e" "nie_tylko_kropki n"
  shows "splitext (n @ ''.'' @ e) = (n, ''.'' @ e)"
proof -
  have s: "rfind (CHR ''/'') (n @ CHR ''.'' # e) = - 1"
    using assms(1,2) by (intro rfind_brak) simp
  have d: "rfind (CHR ''.'') (n @ CHR ''.'' # e) = int (length n)"
    using assms(3) by (rule rfind_ostatni)
  show ?thesis
    using assms(4) by (simp add: splitext_def s d)
qed

lemma splitext_bez_kropki:
  assumes "CHR ''.'' \<notin> set n"
  shows "splitext n = (n, [])"
  using assms by (simp add: splitext_def rfind_brak [of "CHR ''.''"] rfind_def)

lemma nazwa_bez_rozszerzenia_z_rozszerzeniem:
  assumes "CHR ''/'' \<notin> set n" "CHR ''/'' \<notin> set e" "CHR ''.'' \<notin> set e" "\<exists>c \<in> set n. c \<noteq> CHR ''.''"
  shows "nazwa_bez_rozszerzenia (d @ ''/'' @ n @ ''.'' @ e) = n"
proof -
  have "CHR ''/'' \<notin> set (n @ ''.'' @ e)"
    using assms(1,2) by simp
  then have "basename (d @ ''/'' @ (n @ ''.'' @ e)) = n @ ''.'' @ e"
    by (rule basename_w_folderze)
  moreover have "splitext (n @ ''.'' @ e) = (n, ''.'' @ e)"
    using assms by (intro splitext_z_rozszerzeniem) (simp_all add: nie_tylko_kropki_iff)
  ultimately show ?thesis
    by (simp add: nazwa_bez_rozszerzenia_def)
qed

lemma nazwa_bez_rozszerzenia_bez_kropki:
  assumes "CHR ''/'' \<notin> set n" "CHR ''.'' \<notin> set n"
  shows "nazwa_bez_rozszerzenia (d @ ''/'' @ n) = n"
  using basename_w_folderze [OF assms(1), of d] splitext_bez_kropki [OF assms(2)]
  by (simp add: nazwa_bez_rozszerzenia_def)

subsection \<open>Grouping\<close>

lemma set_pierwsze [simp]: "set (pierwsze ks) = set ks"
  by (simp add: pierwsze_def)

lemma distinct_pierwsze [simp]: "distinct (pierwsze ks)"
  by (simp add: pierwsze_def)

lemma pierwsze_snoc: "pierwsze (ks @ [k]) = (if k \<in> set ks then pierwsze ks else pierwsze ks @ [k])"
  by (simp add: pierwsze_def)

lemma dodaj_keys:
  "map fst (dodaj k v d) = (if k \<in> fst ` set d then map fst d else map fst d @ [k])"
  by (induction d) (auto simp: rev_image_eqI)

lemma dodaj_map_of:
  "map_of (dodaj k v d) =
     (map_of d)(k \<mapsto> (case map_of d k of None \<Rightarrow> [v] | Some vs \<Rightarrow> vs @ [v]))"
  by (induction d) (auto simp: fun_eq_iff)

lemma zbierz_snoc: "zbierz kf vf (xs @ [x]) = dodaj (kf x) (vf x) (zbierz kf vf xs)"
  by (simp add: zbierz_def)

lemma zbierz_keys: "map fst (zbierz kf vf xs) = pierwsze (map kf xs)"
proof (induction xs rule: rev_induct)
  case Nil
  show ?case by (simp add: zbierz_def pierwsze_def)
next
  case (snoc x xs)
  have "fst ` set (zbierz kf vf xs) = kf ` set xs"
    using snoc.IH by (metis list.set_map set_pierwsze)
  then show ?case
    by (simp add: zbierz_snoc dodaj_keys snoc.IH pierwsze_snoc)
qed

lemma zbierz_map_of:
  "map_of (zbierz kf vf xs) k =
     (if k \<in> kf ` set xs then Some (map vf (filter (\<lambda>x. kf x = k) xs)) else None)"
proof (induction xs arbitrary: k rule: rev_induct)
  case Nil
  show ?case by (simp add: zbierz_def)
next
  case (snoc x xs)
  show ?case
    by (auto simp: zbierz_snoc dodaj_map_of snoc.IH filter_empty_conv image_iff)
qed

lemma alist_by_keys:
  "distinct (map fst d) \<Longrightarrow> d = map (\<lambda>k. (k, the (map_of d k))) (map fst d)"
proof (induction d)
  case Nil
  show ?case by simp
next
  case (Cons a d)
  have "map (\<lambda>k. (k, the (map_of (a # d) k))) (map fst d) = map (\<lambda>k. (k, the (map_of d k))) (map fst d)"
    using Cons.prems by (intro map_cong) (auto simp: rev_image_eqI)
  with Cons show ?case by (cases a) simp
qed

lemma zbierz_eq:
  "zbierz kf vf xs =
     map (\<lambda>k. (k, map vf (filter (\<lambda>x. kf x = k) xs))) (pierwsze (map kf xs))"
proof -
  have d: "distinct (map fst (zbierz kf vf xs))"
    by (simp add: zbierz_keys)
  have "zbierz kf vf xs =
          map (\<lambda>k. (k, the (map_of (zbierz kf vf xs) k))) (pierwsze (map kf xs))"
    using alist_by_keys [OF d] by (simp add: zbierz_keys)
  also have "\<dots> = map (\<lambda>k. (k, map vf (filter (\<lambda>x. kf x = k) xs))) (pierwsze (map kf xs))"
    by (intro map_cong) (auto simp: zbierz_map_of)
  finally show ?thesis .
qed

lemma grupuj_eq:
  "grupuj f xs = map (\<lambda>k. (k, filter (\<lambda>x. f x = k) xs)) (pierwsze (map f xs))"
  using zbierz_eq [of f "\<lambda>x. x" xs] by (simp add: zbierz_def grupuj_def)

lemma grupuj_member:
  "(k, g) \<in> set (grupuj f xs) \<longleftrightarrow> k \<in> f ` set xs \<and> g = filter (\<lambda>x. f x = k) xs"
  by (auto simp: grupuj_eq)

lemma dodaj_mset:
  "mset (concat (map snd (dodaj k v d))) = add_mset v (mset (concat (map snd d)))"
  by (induction d) auto

lemma grupuj_mset: "mset (concat (map snd (grupuj f xs))) = mset xs"
  by (induction xs rule: rev_induct) (simp_all add: grupuj_def dodaj_mset)

subsection \<open>Lists of writes\<close>

lemma zastosuj_Nil [simp]: "zastosuj [] m = m"
  by (simp add: zastosuj_def)

lemma zastosuj_Cons [simp]: "zastosuj (a # ps) m = zastosuj ps (ustaw (fst a) (snd a) m)"
  by (simp add: zastosuj_def)

lemma zastosuj_append: "zastosuj (ps @ qs) m = zastosuj qs (zastosuj ps m)"
  by (simp add: zastosuj_def)

lemma length_ustaw [simp]: "length (ustaw i f m) = length m"
  by (simp add: ustaw_def)

lemma length_zastosuj [simp]: "length (zastosuj ps m) = length m"
  by (induction ps arbitrary: m) simp_all

lemma zastosuj_nth:
  "distinct (map fst ps) \<Longrightarrow> i < length m \<Longrightarrow>
   zastosuj ps m ! i = (case map_of ps i of None \<Rightarrow> m ! i | Some f \<Rightarrow> f (m ! i))"
proof (induction ps arbitrary: m)
  case Nil
  show ?case by simp
next
  case (Cons a ps)
  obtain j f where a: "a = (j, f)" by (cases a)
  have d: "distinct (map fst ps)" and nj: "j \<notin> fst ` set ps"
    using Cons.prems(1) a by auto
  have ih: "zastosuj ps (ustaw j f m) ! i =
              (case map_of ps i of None \<Rightarrow> ustaw j f m ! i | Some g \<Rightarrow> g (ustaw j f m ! i))"
    using Cons.IH [OF d, of "ustaw j f m"] Cons.prems(2) by simp
  show ?case
  proof (cases "i = j")
    case True
    have "map_of ps i = None"
      using nj True by (simp add: map_of_eq_None_iff)
    then show ?thesis
      using ih True a Cons.prems(2) by (simp add: ustaw_def)
  next
    case False
    then show ?thesis
      using ih a by (simp add: ustaw_def split: option.split)
  qed
qed

lemma zastosuj_in:
  "distinct (map fst ps) \<Longrightarrow> (i, f) \<in> set ps \<Longrightarrow> i < length m \<Longrightarrow> zastosuj ps m ! i = f (m ! i)"
  by (simp add: zastosuj_nth)

lemma zastosuj_notin:
  "i \<notin> fst ` set ps \<Longrightarrow> zastosuj ps m ! i = m ! i"
proof (induction ps arbitrary: m)
  case Nil
  show ?case by simp
next
  case (Cons a ps)
  then show ?case by (auto simp: ustaw_def)
qed

lemma foldl_zastosuj_concat:
  "foldl (\<lambda>m x. zastosuj (F x) m) m xs = zastosuj (concat (map F xs)) m"
  by (induction xs arbitrary: m) (simp_all add: zastosuj_append)

lemma mset_concat_mono:
  "(\<And>x. x \<in> set xs \<Longrightarrow> mset (F x) \<subseteq># mset (G x)) \<Longrightarrow>
   mset (concat (map F xs)) \<subseteq># mset (concat (map G xs))"
  by (induction xs) (auto intro: subset_mset.add_mono)

lemma distinct_submset:
  assumes "mset xs \<subseteq># mset ys" and "distinct ys"
  shows "distinct xs"
proof -
  have "count (mset xs) a \<le> 1" for a
  proof -
    have "count (mset xs) a \<le> count (mset ys) a"
      using assms(1) by (simp add: mset_subset_eq_count)
    also have "\<dots> \<le> 1"
      using assms(2) by (simp add: distinct_count_atmost_1)
    finally show ?thesis .
  qed
  then show ?thesis
    by (metis count_mset_0_iff distinct_count_atmost_1 le_antisym less_one not_le_imp_less)
qed

subsection \<open>The head of a stable sort\<close>

lemma hd_sort_key_least:
  assumes "xs \<noteq> []" and "y \<in> set xs"
  shows "f (hd (sort_key f xs)) \<le> f y"
proof -
  obtain h t where s: "sort_key f xs = h # t"
    using assms(1) by (cases "sort_key f xs") (auto dest: arg_cong [where f = length])
  have "sorted (map f (h # t))"
    using sorted_sort_key [of f xs] s by simp
  moreover have "y \<in> set (h # t)"
    using assms(2) s by (metis set_sort)
  ultimately show ?thesis
    using s by auto
qed

lemma hd_sort_key_stable:
  assumes "xs \<noteq> []" and "sorted_wrt (<) (map idx xs)" and "y \<in> set xs"
    and "f y = f (hd (sort_key f xs))"
  shows "(idx (hd (sort_key f xs)) :: nat) \<le> idx y"
proof -
  obtain h t where s: "sort_key f xs = h # t"
    using assms(1) by (cases "sort_key f xs") (auto dest: arg_cong [where f = length])
  have "filter (\<lambda>z. f z = f h) xs = filter (\<lambda>z. f z = f h) (h # t)"
    using sort_key_stable [of f "f h" xs] s by simp
  then have fl: "filter (\<lambda>z. f z = f h) xs = h # filter (\<lambda>z. f z = f h) t"
    by simp
  have "sorted_wrt (\<lambda>a b. idx a < idx b) (filter (\<lambda>z. f z = f h) xs)"
    using assms(2) by (simp add: sorted_wrt_map sorted_wrt_filter)
  then have "\<forall>z \<in> set (filter (\<lambda>z. f z = f h) t). idx h < idx z"
    by (simp add: fl)
  moreover have "y \<in> set (filter (\<lambda>z. f z = f h) xs)"
    using assms(3,4) s by simp
  ultimately show ?thesis
    using s fl by auto
qed

lemma sortuj_grupe_set [simp]: "set (sortuj_grupe g) = set g"
  by (simp add: sortuj_grupe_def)

lemma sortuj_grupe_length [simp]: "length (sortuj_grupe g) = length g"
  by (simp add: sortuj_grupe_def)

lemma sortuj_grupe_mset [simp]: "mset (sortuj_grupe g) = mset g"
  by (simp add: sortuj_grupe_def)

lemma sortuj_grupe_sorted: "sorted (map (\<lambda>x. data_utworzenia (snd x)) (sortuj_grupe g))"
  by (simp add: sortuj_grupe_def)

lemma sortuj_grupe_Nil [simp]: "sortuj_grupe g = [] \<longleftrightarrow> g = []"
  by (metis length_0_conv sortuj_grupe_length)

subsection \<open>The name pass as a list of writes\<close>

lemma oznacz_mozliwe_grupe_eq:
  "oznacz_mozliwe_grupe grupa m = zastosuj (przypisania_nazw grupa) m"
  by (simp add: oznacz_mozliwe_grupe_def przypisania_nazw_def zastosuj_def Let_def foldl_map)

lemma oznacz_mozliwe_duplikaty_eq:
  "oznacz_mozliwe_duplikaty recs =
     zastosuj (concat (map (\<lambda>kv. przypisania_nazw (snd kv)) (grupuj klucz_nazwy (enumerate 0 recs)))) recs"
  unfolding oznacz_mozliwe_duplikaty_def Let_def oznacz_mozliwe_grupe_eq klucz_nazwy_def [abs_def]
  by (rule foldl_zastosuj_concat)

lemma map_fst_przypisania_nazw:
  "map fst (przypisania_nazw g) = (if length g > 1 then map fst (sortuj_grupe g) else [])"
proof (cases "length g > 1")
  case True
  then have "sortuj_grupe g \<noteq> []" by auto
  then have "map fst (sortuj_grupe g) = fst (hd (sortuj_grupe g)) # map fst (tl (sortuj_grupe g))"
    by (cases "sortuj_grupe g") simp_all
  then show ?thesis
    using True by (simp add: przypisania_nazw_def comp_def)
next
  case False
  then show ?thesis by (simp add: przypisania_nazw_def)
qed

lemma distinct_przypisania_nazw:
  "distinct (map fst (concat (map (\<lambda>kv. przypisania_nazw (snd kv)) (grupuj f (enumerate 0 recs)))))"
proof -
  let ?D = "grupuj f (enumerate 0 recs)"
  have "mset (concat (map (\<lambda>kv. map fst (przypisania_nazw (snd kv))) ?D))
          \<subseteq># mset (concat (map (\<lambda>kv. map fst (snd kv)) ?D))"
    by (rule mset_concat_mono) (simp add: map_fst_przypisania_nazw)
  moreover have "concat (map (\<lambda>kv. map fst (snd kv)) ?D) = map fst (concat (map snd ?D))"
    by (simp add: map_concat comp_def)
  moreover have "mset (map fst (concat (map snd ?D))) = mset (map fst (enumerate 0 recs))"
    using grupuj_mset [of f "enumerate 0 recs"] by (metis mset_map)
  moreover have "concat (map (\<lambda>kv. map fst (przypisania_nazw (snd kv))) ?D)
                  = map fst (concat (map (\<lambda>kv. przypisania_nazw (snd kv)) ?D))"
    by (simp add: map_concat comp_def)
  ultimately have "mset (map fst (concat (map (\<lambda>kv. przypisania_nazw (snd kv)) ?D)))
                     \<subseteq># mset (map fst (enumerate 0 recs))"
    by simp
  then show ?thesis
    by (rule distinct_submset) simp
qed

lemma w_enumerate: "(j, r) \<in> set (enumerate 0 recs) \<longleftrightarrow> j < length recs \<and> r = recs ! j"
  by (auto simp: in_set_enumerate_eq)

lemma two_in_list: "x \<in> set xs \<Longrightarrow> y \<in> set xs \<Longrightarrow> x \<noteq> y \<Longrightarrow> 1 < length xs"
  by (cases xs; cases "tl xs") auto

lemma other_in_list: "distinct xs \<Longrightarrow> 1 < length xs \<Longrightarrow> \<exists>y \<in> set xs. y \<noteq> x"
  by (cases xs; cases "tl xs") auto

lemma oznacz_mozliwe_punktowo:
  assumes i: "i < length recs"
  shows "oznacz_mozliwe_duplikaty recs ! i =
           (if \<forall>j < length recs. ta_sama_nazwa recs i j \<longrightarrow> j = i then recs ! i
            else if najstarszy recs i then (recs ! i)\<lparr>flaga := Oryginal\<rparr>
            else (recs ! i)\<lparr>flaga := MozliwyDuplikat\<rparr>)"
proof -
  define E where "E = enumerate 0 recs"
  define D where "D = grupuj klucz_nazwy E"
  define AS where "AS = concat (map (\<lambda>kv. przypisania_nazw (snd kv)) D)"
  define k where "k = klucz_nazwy (i, recs ! i)"
  define G where "G = filter (\<lambda>x. klucz_nazwy x = k) E"
  define xi where "xi = (i, recs ! i)"
  have res: "oznacz_mozliwe_duplikaty recs = zastosuj AS recs"
    unfolding AS_def D_def E_def by (rule oznacz_mozliwe_duplikaty_eq)
  have dAS: "distinct (map fst AS)"
    unfolding AS_def D_def E_def by (rule distinct_przypisania_nazw)
  have memG: "(j, r) \<in> set G \<longleftrightarrow> j < length recs \<and> r = recs ! j \<and> ta_sama_nazwa recs i j" for j r
    by (auto simp: G_def E_def k_def w_enumerate klucz_nazwy_def ta_sama_nazwa_def)
  have xiG: "xi \<in> set G"
    using i memG [of i "recs ! i"] unfolding ta_sama_nazwa_def xi_def by blast
  have G_in: "(k, G) \<in> set D"
    using xiG unfolding D_def G_def grupuj_member k_def xi_def by auto
  have dG: "distinct G"
    by (simp add: G_def E_def distinct_enumerate)
  have sG: "sorted_wrt (<) (map fst G)"
  proof -
    have "sorted_wrt (<) (map fst E)" by (simp add: E_def)
    then show ?thesis
      by (simp add: G_def sorted_wrt_map sorted_wrt_filter)
  qed
  have inAS: "a \<in> set AS" if "a \<in> set (przypisania_nazw G)" for a
    using G_in that unfolding AS_def by force
  show ?thesis
  proof (cases "\<forall>j < length recs. ta_sama_nazwa recs i j \<longrightarrow> j = i")
    case True
    have "i \<notin> fst ` set AS"
    proof
      assume "i \<in> fst ` set AS"
      then obtain a where "a \<in> set AS" and ia: "i = fst a" by blast
      then obtain k' G' where kv: "(k', G') \<in> set D" and f: "a \<in> set (przypisania_nazw G')"
        unfolding AS_def by auto
      have "i \<in> set (map fst (przypisania_nazw G'))"
        using f ia by simp
      then have len: "1 < length G'" and "i \<in> fst ` set G'"
        by (auto simp: map_fst_przypisania_nazw split: if_splits)
      then obtain r where r: "(i, r) \<in> set G'" by auto
      have G': "G' = filter (\<lambda>x. klucz_nazwy x = k') E"
        using kv by (simp add: D_def grupuj_member)
      have "r = recs ! i" and "klucz_nazwy (i, r) = k'"
        using r G' by (auto simp: E_def w_enumerate)
      then have "G' = G"
        using G' by (simp add: G_def k_def)
      then obtain y where y: "y \<in> set G" "y \<noteq> xi"
        using other_in_list [OF dG, of xi] len by auto
      obtain yj yr where yy: "y = (yj, yr)" by (cases y)
      have "yj < length recs \<and> yr = recs ! yj \<and> ta_sama_nazwa recs i yj"
        using y(1) memG [of yj yr] unfolding yy by blast
      then show False
        using True y(2) yy unfolding xi_def by blast
    qed
    then have "zastosuj AS recs ! i = recs ! i"
      by (rule zastosuj_notin)
    then show ?thesis
      using True res by simp
  next
    case False
    then obtain j where j: "j < length recs" "ta_sama_nazwa recs i j" "j \<noteq> i"
      by auto
    have "(j, recs ! j) \<in> set G"
      using j memG [of j "recs ! j"] by blast
    then have len: "1 < length G"
      using xiG j(3) two_in_list [of xi G "(j, recs ! j)"] unfolding xi_def by auto
    then have ne: "G \<noteq> []" by auto
    define s where "s = sortuj_grupe G"
    define h where "h = hd s"
    have hs: "s = h # tl s"
      using ne unfolding h_def s_def by (cases "sortuj_grupe G") simp_all
    have hG: "h \<in> set G"
      using hs by (metis list.set_intros(1) sortuj_grupe_set s_def)
    obtain hj hr where hh: "h = (hj, hr)" by (cases h)
    have hj: "hj < length recs" "hr = recs ! hj" "ta_sama_nazwa recs i hj"
      using hG memG [of hj hr] unfolding hh by blast+
    have pG: "przypisania_nazw G =
                (fst h, \<lambda>r. r\<lparr>flaga := Oryginal\<rparr>)
                # map (\<lambda>x. (fst x, \<lambda>r. r\<lparr>flaga := MozliwyDuplikat\<rparr>)) (tl s)"
      using len by (simp add: przypisania_nazw_def h_def s_def)
    have least: "data_utworzenia (recs ! hj) \<le> data_utworzenia (recs ! j')"
      if "j' < length recs" "ta_sama_nazwa recs i j'" for j'
    proof -
      have "(j', recs ! j') \<in> set G" using that memG [of j' "recs ! j'"] by blast
      from hd_sort_key_least [OF ne this, of "\<lambda>x. data_utworzenia (snd x)"]
      show ?thesis using hh hj(2) by (simp add: sortuj_grupe_def h_def s_def)
    qed
    have stable: "hj \<le> j'"
      if "j' < length recs" "ta_sama_nazwa recs i j'"
         "data_utworzenia (recs ! j') = data_utworzenia (recs ! hj)" for j'
    proof -
      have "(j', recs ! j') \<in> set G" using that memG [of j' "recs ! j'"] by blast
      from hd_sort_key_stable [OF ne sG this, of "\<lambda>x. data_utworzenia (snd x)"]
      show ?thesis using hh hj(2) that(3) by (simp add: sortuj_grupe_def h_def s_def)
    qed
    have ii: "ta_sama_nazwa recs i i"
      by (simp add: ta_sama_nazwa_def)
    show ?thesis
    proof (cases "hj = i")
      case True
      have "(i, \<lambda>r. r\<lparr>flaga := Oryginal\<rparr>) \<in> set (przypisania_nazw G)"
        unfolding pG using hh True by simp
      then have "(i, \<lambda>r. r\<lparr>flaga := Oryginal\<rparr>) \<in> set AS"
        by (rule inAS)
      then have "zastosuj AS recs ! i = (recs ! i)\<lparr>flaga := Oryginal\<rparr>"
        using zastosuj_in [OF dAS _ i] by blast
      moreover have "najstarszy recs i"
        unfolding najstarszy_def using least stable True
        by (metis le_neq_implies_less)
      ultimately show ?thesis
        using False res by auto
    next
      case neq: False
      have "xi \<in> set s"
        using xiG by (simp add: s_def)
      then have "xi \<in> set (tl s)"
        using hs hh neq unfolding xi_def by (metis fst_conv set_ConsD)
      then have "(fst xi, \<lambda>r. r\<lparr>flaga := MozliwyDuplikat\<rparr>)
                   \<in> set (map (\<lambda>x. (fst x, \<lambda>r. r\<lparr>flaga := MozliwyDuplikat\<rparr>)) (tl s))"
        by (rule imageI [of xi "set (tl s)" "\<lambda>x. (fst x, \<lambda>r. r\<lparr>flaga := MozliwyDuplikat\<rparr>)",
                          unfolded set_map [symmetric]])
      then have "(i, \<lambda>r. r\<lparr>flaga := MozliwyDuplikat\<rparr>)
                   \<in> set (map (\<lambda>x. (fst x, \<lambda>r. r\<lparr>flaga := MozliwyDuplikat\<rparr>)) (tl s))"
        unfolding xi_def fst_conv .
      then have "(i, \<lambda>r. r\<lparr>flaga := MozliwyDuplikat\<rparr>) \<in> set (przypisania_nazw G)"
        unfolding pG by (rule list.set_intros(2))
      then have "(i, \<lambda>r. r\<lparr>flaga := MozliwyDuplikat\<rparr>) \<in> set AS"
        by (rule inAS)
      then have "zastosuj AS recs ! i = (recs ! i)\<lparr>flaga := MozliwyDuplikat\<rparr>"
        using zastosuj_in [OF dAS _ i] by blast
      moreover have "\<not> najstarszy recs i"
      proof
        assume "najstarszy recs i"
        then have "data_utworzenia (recs ! i) < data_utworzenia (recs ! hj)
                   \<or> (data_utworzenia (recs ! i) = data_utworzenia (recs ! hj) \<and> i \<le> hj)"
          using hj by (simp add: najstarszy_def)
        moreover have "data_utworzenia (recs ! hj) \<le> data_utworzenia (recs ! i)"
          using least [OF i ii] .
        moreover have "data_utworzenia (recs ! i) = data_utworzenia (recs ! hj) \<Longrightarrow> hj \<le> i"
          using stable [OF i ii] .
        ultimately show False
          using neq by auto
      qed
      ultimately show ?thesis
        using False res by auto
    qed
  qed
qed

subsection \<open>The hash pass as a list of writes\<close>

lemma oznacz_dokladna_grupe_eq:
  "oznacz_dokladna_grupe c g m = zastosuj (przypisania_hash c g) m"
  by (simp add: oznacz_dokladna_grupe_def przypisania_hash_def zastosuj_def Let_def foldl_map)

lemma foldl_krok_hash:
  "foldl krok_hash (m, c) gs =
     (zastosuj (przypisania_grup c (map sortuj_grupe (filter (\<lambda>g. 1 < length g) gs))) m,
      c + length (filter (\<lambda>g. 1 < length g) gs))"
proof (induction gs arbitrary: m c)
  case Nil
  show ?case by (simp add: przypisania_grup_def)
next
  case (Cons g gs)
  show ?case
  proof (cases "1 < length g")
    case True
    then have "krok_hash (m, c) g = (zastosuj (przypisania_hash (c + 1) (sortuj_grupe g)) m, c + 1)"
      by (simp add: krok_hash_def oznacz_dokladna_grupe_eq)
    then show ?thesis
      using True by (simp add: Cons.IH przypisania_grup_def zastosuj_append)
  next
    case False
    then have "krok_hash (m, c) g = (m, c)"
      by (simp add: krok_hash_def)
    then show ?thesis
      using False by (simp add: Cons.IH)
  qed
qed

lemma foldl_krok_rozszerzenie:
  "foldl (\<lambda>s kv. krok_rozszerzenie s (snd kv)) s buckets =
     foldl krok_hash s
       (concat (map (\<lambda>kv. map snd (grupuj (\<lambda>x. hash_sha256 (snd x)) (snd kv))) buckets))"
  by (induction buckets arbitrary: s) (simp_all add: krok_rozszerzenie_def foldl_map)

lemma oznacz_dokladne_duplikaty_eq:
  "oznacz_dokladne_duplikaty recs = zastosuj (przypisania_grup 0 (grupy_duplikatow recs)) recs"
  by (simp add: oznacz_dokladne_duplikaty_def foldl_krok_rozszerzenie foldl_krok_hash
      grupy_duplikatow_def grupy_hash_def)

lemma grupy_hash_member:
  "g \<in> set (grupy_hash recs) \<longleftrightarrow>
     (\<exists>e h. h \<noteq> [] \<and> g \<noteq> [] \<and>
        g = filter (\<lambda>x. rozszerzenie (snd x) = e \<and> hash_sha256 (snd x) = h) (enumerate 0 recs))"
  (is "?L \<longleftrightarrow> ?R")
proof
  assume ?L
  then obtain e b h where b: "(e, b) \<in> set (pliki_wedlug_rozszerzen recs)"
    and g: "(h, g) \<in> set (grupuj (\<lambda>x. hash_sha256 (snd x)) b)"
    by (auto simp: grupy_hash_def)
  have bd: "b = filter (\<lambda>x. rozszerzenie (snd x) = e)
                  (filter (\<lambda>x. hash_sha256 (snd x) \<noteq> []) (enumerate 0 recs))"
    using b by (simp add: pliki_wedlug_rozszerzen_def grupuj_member)
  have gd: "g = filter (\<lambda>x. hash_sha256 (snd x) = h) b" and hin: "h \<in> (\<lambda>x. hash_sha256 (snd x)) ` set b"
    using g by (simp_all add: grupuj_member)
  from hin obtain x where x: "x \<in> set b" "hash_sha256 (snd x) = h" by auto
  have hne: "h \<noteq> []"
    using x bd by auto
  have "x \<in> set g"
    using x gd by simp
  then have gne: "g \<noteq> []" by auto
  have "g = filter (\<lambda>x. rozszerzenie (snd x) = e \<and> hash_sha256 (snd x) = h) (enumerate 0 recs)"
    unfolding gd bd using hne by (auto intro: filter_cong)
  with hne gne show ?R by blast
next
  assume ?R
  then obtain e h where hne: "h \<noteq> []" and gne: "g \<noteq> []"
    and gd: "g = filter (\<lambda>x. rozszerzenie (snd x) = e \<and> hash_sha256 (snd x) = h) (enumerate 0 recs)"
    by blast
  define Z where "Z = filter (\<lambda>x. hash_sha256 (snd x) \<noteq> []) (enumerate 0 recs)"
  define b where "b = filter (\<lambda>x. rozszerzenie (snd x) = e) Z"
  from gne obtain x where "x \<in> set g" by (cases g) auto
  then have x: "x \<in> set (enumerate 0 recs)" "rozszerzenie (snd x) = e" "hash_sha256 (snd x) = h"
    unfolding gd by auto
  have xZ: "x \<in> set Z" using x hne by (simp add: Z_def)
  have xb: "x \<in> set b" using xZ x by (simp add: b_def)
  have "(e, b) \<in> set (pliki_wedlug_rozszerzen recs)"
    unfolding pliki_wedlug_rozszerzen_def grupuj_member b_def Z_def [symmetric]
    using xZ x(2) by auto
  moreover have "(h, filter (\<lambda>x. hash_sha256 (snd x) = h) b) \<in> set (grupuj (\<lambda>x. hash_sha256 (snd x)) b)"
    unfolding grupuj_member using xb x(3) by auto
  moreover have "filter (\<lambda>x. hash_sha256 (snd x) = h) b = g"
    unfolding gd b_def Z_def using hne by (auto intro: filter_cong)
  ultimately show ?L
    unfolding grupy_hash_def by force
qed

lemma mset_grupy_hash:
  "mset (concat (grupy_hash recs)) =
     mset (filter (\<lambda>x. hash_sha256 (snd x) \<noteq> []) (enumerate 0 recs))"
proof -
  have "mset (concat (concat (map (\<lambda>kv. map snd (grupuj f (snd kv))) bs)))
          = mset (concat (map snd bs))" for bs :: "(string \<times> (nat \<times> MetadanePliku) list) list" and f :: "nat \<times> MetadanePliku \<Rightarrow> string"
    by (induction bs) (simp_all add: grupuj_mset)
  then show ?thesis
    by (simp add: grupy_hash_def pliki_wedlug_rozszerzen_def grupuj_mset)
qed

lemma mset_grupy_duplikatow:
  "mset (concat (grupy_duplikatow recs)) \<subseteq># mset (concat (grupy_hash recs))"
proof -
  have "mset (concat (map sortuj_grupe (filter P gs))) \<subseteq># mset (concat gs)" for P gs
    by (induction gs) (auto intro: subset_mset.add_mono simp: subset_mset.add_increasing)
  then show ?thesis by (simp add: grupy_duplikatow_def)
qed

lemma distinct_grupy_duplikatow: "distinct (map fst (concat (grupy_duplikatow recs)))"
proof -
  have "mset (map fst (concat (grupy_duplikatow recs)))
          \<subseteq># mset (map fst (filter (\<lambda>x. hash_sha256 (snd x) \<noteq> []) (enumerate 0 recs)))"
    using mset_grupy_duplikatow [of recs] mset_grupy_hash [of recs]
    by (metis image_mset_subseteq_mono mset_map)
  moreover have "distinct (map fst (filter (\<lambda>x. hash_sha256 (snd x) \<noteq> []) (enumerate 0 recs)))"
    by (rule distinct_map_filter) simp
  ultimately show ?thesis by (rule distinct_submset)
qed

lemma map_snd_enumerate_fun: "map (\<lambda>x. f (snd x)) (enumerate n xs) = map f xs"
  by (induction xs arbitrary: n) simp_all

lemma map_fst_przypisania_hash: "g \<noteq> [] \<Longrightarrow> map fst (przypisania_hash c g) = map fst g"
  by (cases g) (simp_all add: przypisania_hash_def comp_def map_snd_enumerate_fun)

lemma map_fst_przypisania_grup:
  "\<forall>g \<in> set gs. g \<noteq> [] \<Longrightarrow> map fst (przypisania_grup c gs) = map fst (concat gs)"
  by (induction gs arbitrary: c) (simp_all add: przypisania_grup_def map_fst_przypisania_hash)

lemma grupy_duplikatow_dlugie: "g \<in> set (grupy_duplikatow recs) \<Longrightarrow> 1 < length g"
  by (auto simp: grupy_duplikatow_def)

lemma distinct_przypisania_grup: "distinct (map fst (przypisania_grup c (grupy_duplikatow recs)))"
proof -
  have "\<forall>g \<in> set (grupy_duplikatow recs). g \<noteq> []"
    using grupy_duplikatow_dlugie by fastforce
  then show ?thesis
    by (simp add: map_fst_przypisania_grup distinct_grupy_duplikatow)
qed

subsection \<open>Decimal numerals and group numbers\<close>

lemma cyfra_inj: "a < 10 \<Longrightarrow> b < 10 \<Longrightarrow> cyfra a = cyfra b \<Longrightarrow> a = b"
  by (simp add: cyfra_def)

lemma cyfra_nie_minus: "d < 10 \<Longrightarrow> cyfra d \<noteq> CHR ''-''"
proof
  assume d: "d < 10" and "cyfra d = CHR ''-''"
  then have "of_char (cyfra d) = (of_char (CHR ''-'') :: nat)" by simp
  then show False using d by (simp add: cyfra_def)
qed

lemma cyfra_zero: "d < 10 \<Longrightarrow> cyfra d = CHR ''0'' \<longleftrightarrow> d = 0"
proof
  assume d: "d < 10" and "cyfra d = CHR ''0''"
  then have "of_char (cyfra d) = (of_char (CHR ''0'') :: nat)" by simp
  then show "d = 0" using d by (simp add: cyfra_def)
next
  assume "d = 0"
  then show "cyfra d = CHR ''0''" by (simp add: cyfra_def char_of_eq_iff)
qed

lemma cyfry_nonempty [simp]: "cyfry n \<noteq> []"
  by (subst cyfry.simps) simp

lemma cyfry_bez_minusa: "CHR ''-'' \<notin> set (cyfry n)"
proof (induction n rule: cyfry.induct)
  case (1 n)
  show ?case
  proof (cases "n < 10")
    case True
    then show ?thesis
      using cyfra_nie_minus [of n] by (subst cyfry.simps) auto
  next
    case False
    then show ?thesis
      using 1 cyfra_nie_minus [of "n mod 10"] by (subst cyfry.simps) auto
  qed
qed

lemma cyfry_inj: "cyfry m = cyfry n \<Longrightarrow> m = n"
proof (induction m arbitrary: n rule: cyfry.induct)
  case (1 m)
  show ?case
  proof (cases "m < 10")
    case m: True
    show ?thesis
    proof (cases "n < 10")
      case True
      then show ?thesis
        using m "1.prems" cyfra_inj [of m n]
        by (simp add: cyfry.simps [of m] cyfry.simps [of n])
    next
      case False
      then have "length (cyfry n) \<ge> 2"
        using cyfry_nonempty [of "n div 10"]
        by (subst cyfry.simps) (simp add: Suc_le_eq)
      moreover have "length (cyfry m) = 1"
        using m by (subst cyfry.simps) simp
      ultimately show ?thesis using "1.prems" by simp
    qed
  next
    case m: False
    show ?thesis
    proof (cases "n < 10")
      case True
      have "length (cyfry m) \<ge> 2"
        using m cyfry_nonempty [of "m div 10"]
        by (subst cyfry.simps) (simp add: Suc_le_eq)
      moreover have "length (cyfry n) = 1"
        using True by (subst cyfry.simps) simp
      ultimately show ?thesis using "1.prems" by simp
    next
      case False
      have "cyfry (m div 10) @ [cyfra (m mod 10)] = cyfry (n div 10) @ [cyfra (n mod 10)]"
        using "1.prems" m False by (simp add: cyfry.simps [of m] cyfry.simps [of n])
      then have a: "cyfry (m div 10) = cyfry (n div 10)" and b: "cyfra (m mod 10) = cyfra (n mod 10)"
        by simp_all
      have "m div 10 = n div 10"
        using "1.IH" [OF m a] .
      moreover have "m mod 10 = n mod 10"
        using b cyfra_inj [of "m mod 10" "n mod 10"] by simp
      ultimately show ?thesis
        by (metis div_mult_mod_eq)
    qed
  qed
qed

lemma hd_cyfry: "0 < n \<Longrightarrow> hd (cyfry n) \<noteq> CHR ''0''"
proof (induction n rule: cyfry.induct)
  case (1 n)
  show ?case
  proof (cases "n < 10")
    case True
    then show ?thesis
      using "1.prems" cyfra_zero [of n] by (subst cyfry.simps) simp
  next
    case False
    then have "0 < n div 10" by simp
    then have "hd (cyfry (n div 10)) \<noteq> CHR ''0''"
      using "1.IH" False by simp
    then show ?thesis
      using False by (subst cyfry.simps) simp
  qed
qed

lemma fmt02_inj: "fmt02 m = fmt02 n \<Longrightarrow> m = n"
proof -
  assume e: "fmt02 m = fmt02 n"
  consider "m < 10" "n < 10" | "m < 10" "\<not> n < 10" | "\<not> m < 10" "n < 10" | "\<not> m < 10" "\<not> n < 10"
    by blast
  then show ?thesis
  proof cases
    case 1
    then show ?thesis using e cyfry_inj by (simp add: fmt02_def)
  next
    case 2
    then have "hd (cyfry n) = CHR ''0''"
      using e by (auto simp: fmt02_def dest: arg_cong [where f = hd])
    then show ?thesis using hd_cyfry [of n] 2 by simp
  next
    case 3
    then have "hd (cyfry m) = CHR ''0''"
      using e by (auto simp: fmt02_def dest: arg_cong [where f = hd])
    then show ?thesis using hd_cyfry [of m] 3 by simp
  next
    case 4
    then show ?thesis using e cyfry_inj by (simp add: fmt02_def)
  qed
qed

lemma fmt02_bez_minusa: "CHR ''-'' \<notin> set (fmt02 n)"
  using cyfry_bez_minusa [of n] by (simp add: fmt02_def)

lemma numer_grupy_fmt02: "numer_grupy (fmt02 n @ CHR ''-'' # s) = fmt02 n"
proof -
  have "\<And>c. c \<in> set (fmt02 n) \<Longrightarrow> c \<noteq> CHR ''-''"
    using fmt02_bez_minusa [of n] by auto
  then show ?thesis
    by (simp add: numer_grupy_def)
qed

subsection \<open>What the hash pass writes where\<close>

lemma przypisania_hash_mem:
  assumes "p < length g"
  shows "(fst (g ! p), znacznik c p) \<in> set (przypisania_hash c g)"
proof (cases p)
  case 0
  then have "hd g = g ! p"
    using assms by (simp add: hd_conv_nth)
  then show ?thesis
    using 0 by (simp add: przypisania_hash_def znacznik_def [abs_def])
next
  case (Suc q)
  then have q: "q < length (tl g)"
    using assms by simp
  then have "(q, tl g ! q) \<in> set (enumerate 0 (tl g))"
    by (simp add: in_set_enumerate_eq)
  moreover have "tl g ! q = g ! p"
    using Suc q by (simp add: nth_tl)
  ultimately have "(q, g ! p) \<in> set (enumerate 0 (tl g))"
    by simp
  then have "(fst (snd (q, g ! p)),
              \<lambda>r. r\<lparr>flaga := Duplikat, id_grupy := fmt02 c @ ''-D'' @ cyfry (fst (q, g ! p) + 1)\<rparr>)
             \<in> set (map (\<lambda>jx. (fst (snd jx),
                    \<lambda>r. r\<lparr>flaga := Duplikat, id_grupy := fmt02 c @ ''-D'' @ cyfry (fst jx + 1)\<rparr>))
                  (enumerate 0 (tl g)))"
    unfolding set_map by (rule imageI)
  then have m: "(fst (g ! p),
              \<lambda>r. r\<lparr>flaga := Duplikat, id_grupy := fmt02 c @ ''-D'' @ cyfry (q + 1)\<rparr>)
             \<in> set (map (\<lambda>jx. (fst (snd jx),
                    \<lambda>r. r\<lparr>flaga := Duplikat, id_grupy := fmt02 c @ ''-D'' @ cyfry (fst jx + 1)\<rparr>))
                  (enumerate 0 (tl g)))"
    unfolding fst_conv snd_conv .
  have zn: "znacznik c p = (\<lambda>r. r\<lparr>flaga := Duplikat, id_grupy := fmt02 c @ ''-D'' @ cyfry (q + 1)\<rparr>)"
    using Suc by (simp add: znacznik_def fun_eq_iff)
  show ?thesis
    unfolding przypisania_hash_def zn by (rule list.set_intros(2)) (rule m)
qed

lemma przypisania_grup_mem:
  assumes "k < length gs" and "a \<in> set (przypisania_hash (c + k + 1) (gs ! k))"
  shows "a \<in> set (przypisania_grup c gs)"
proof -
  have "(c + k, gs ! k) \<in> set (enumerate c gs)"
    using assms(1) by (simp add: in_set_enumerate_eq)
  then show ?thesis
    using assms(2) unfolding przypisania_grup_def by force
qed

lemma grupy_duplikatow_elem:
  assumes "g \<in> set (grupy_duplikatow recs)" and "x \<in> set g"
  shows "fst x < length recs \<and> snd x = recs ! fst x \<and> hash_sha256 (snd x) \<noteq> []"
proof -
  obtain g' where g': "g' \<in> set (grupy_hash recs)" and "g = sortuj_grupe g'"
    using assms(1) by (auto simp: grupy_duplikatow_def)
  then have xg: "x \<in> set g'"
    using assms(2) by simp
  obtain e h where h: "h \<noteq> []"
    and gd: "g' = filter (\<lambda>x. rozszerzenie (snd x) = e \<and> hash_sha256 (snd x) = h) (enumerate 0 recs)"
    using g' grupy_hash_member by blast
  have "x \<in> set (filter (\<lambda>x. rozszerzenie (snd x) = e \<and> hash_sha256 (snd x) = h) (enumerate 0 recs))"
    using xg unfolding gd .
  then have a: "x \<in> set (enumerate 0 recs)" and b: "hash_sha256 (snd x) = h"
    by simp_all
  from a have "fst x < length recs \<and> snd x = recs ! fst x"
    by (simp add: in_set_enumerate_eq)
  with b h show ?thesis by simp
qed

lemma oznacz_dokladne_nth:
  assumes k: "k < length (grupy_duplikatow recs)" and p: "p < length (grupy_duplikatow recs ! k)"
  shows "oznacz_dokladne_duplikaty recs ! fst (grupy_duplikatow recs ! k ! p)
           = znacznik (k + 1) p (recs ! fst (grupy_duplikatow recs ! k ! p))"
proof -
  define gs where "gs = grupy_duplikatow recs"
  define x where "x = gs ! k ! p"
  have "gs ! k \<in> set gs" and "x \<in> set (gs ! k)"
    using k p by (simp_all add: gs_def x_def)
  then have len: "fst x < length recs"
    using grupy_duplikatow_elem [of "gs ! k" recs x] by (simp add: gs_def)
  have "(fst x, znacznik (k + 1) p) \<in> set (przypisania_hash (0 + k + 1) (gs ! k))"
    using przypisania_hash_mem [of p "gs ! k" "k + 1"] p by (simp add: gs_def x_def)
  then have "(fst x, znacznik (k + 1) p) \<in> set (przypisania_grup 0 gs)"
    using przypisania_grup_mem [of k gs _ 0] k by (simp add: gs_def)
  then have "zastosuj (przypisania_grup 0 gs) recs ! fst x = znacznik (k + 1) p (recs ! fst x)"
    using zastosuj_in [OF distinct_przypisania_grup [of 0 recs] _ len] by (simp add: gs_def)
  then show ?thesis
    by (simp add: oznacz_dokladne_duplikaty_eq gs_def x_def)
qed

lemma oznacz_dokladne_poza_grupami:
  assumes "\<forall>g \<in> set (grupy_duplikatow recs). i \<notin> fst ` set g"
  shows "oznacz_dokladne_duplikaty recs ! i = recs ! i"
proof -
  have ne: "\<forall>g \<in> set (grupy_duplikatow recs). g \<noteq> []"
    using grupy_duplikatow_dlugie by fastforce
  have "i \<notin> set (map fst (concat (grupy_duplikatow recs)))"
    using assms by auto
  then have "i \<notin> set (map fst (przypisania_grup 0 (grupy_duplikatow recs)))"
    using map_fst_przypisania_grup [OF ne, of 0] by simp
  then have "i \<notin> fst ` set (przypisania_grup 0 (grupy_duplikatow recs))"
    by simp
  then show ?thesis
    unfolding oznacz_dokladne_duplikaty_eq by (rule zastosuj_notin)
qed

lemma length_oznacz_dokladne [simp]: "length (oznacz_dokladne_duplikaty recs) = length recs"
  by (simp add: oznacz_dokladne_duplikaty_eq)

lemma length_oznacz_mozliwe [simp]: "length (oznacz_mozliwe_duplikaty recs) = length recs"
  by (simp add: oznacz_mozliwe_duplikaty_eq)

lemma grupy_duplikatow_opis:
  assumes "g \<in> set (grupy_duplikatow recs)"
  shows "\<exists>e h. h \<noteq> [] \<and>
           mset g = mset (filter (\<lambda>x. rozszerzenie (snd x) = e \<and> hash_sha256 (snd x) = h)
                            (enumerate 0 recs))"
proof -
  obtain g' where g': "g' \<in> set (grupy_hash recs)" and g: "g = sortuj_grupe g'"
    using assms by (auto simp: grupy_duplikatow_def)
  obtain e h where h: "h \<noteq> []"
    and gd: "g' = filter (\<lambda>x. rozszerzenie (snd x) = e \<and> hash_sha256 (snd x) = h) (enumerate 0 recs)"
    using g' grupy_hash_member by blast
  have "mset g = mset (filter (\<lambda>x. rozszerzenie (snd x) = e \<and> hash_sha256 (snd x) = h)
                         (enumerate 0 recs))"
    unfolding g sortuj_grupe_mset gd ..
  with h show ?thesis by blast
qed

lemma grupy_duplikatow_sorted:
  assumes "g \<in> set (grupy_duplikatow recs)"
  shows "sorted (map (\<lambda>x. data_utworzenia (snd x)) g)"
  using assms by (auto simp: grupy_duplikatow_def sortuj_grupe_sorted)

lemma grupy_duplikatow_zupelne:
  assumes "i < length recs" "j < length recs" "i \<noteq> j" "hash_sha256 (recs ! i) \<noteq> []"
    and "hash_sha256 (recs ! j) = hash_sha256 (recs ! i)"
    and "rozszerzenie (recs ! j) = rozszerzenie (recs ! i)"
  shows "\<exists>k < length (grupy_duplikatow recs).
           i \<in> fst ` set (grupy_duplikatow recs ! k) \<and> j \<in> fst ` set (grupy_duplikatow recs ! k)"
proof -
  define g where "g = filter (\<lambda>x. rozszerzenie (snd x) = rozszerzenie (recs ! i)
                               \<and> hash_sha256 (snd x) = hash_sha256 (recs ! i)) (enumerate 0 recs)"
  have xi: "(i, recs ! i) \<in> set g" and xj: "(j, recs ! j) \<in> set g"
    using assms by (simp_all add: g_def w_enumerate)
  then have len: "1 < length g"
    using two_in_list [of "(i, recs ! i)" g "(j, recs ! j)"] assms(3) by auto
  have "g \<noteq> []" using xi by auto
  then have "g \<in> set (grupy_hash recs)"
    unfolding grupy_hash_member using assms(4) g_def by blast
  then have "sortuj_grupe g \<in> set (grupy_duplikatow recs)"
    using len by (simp add: grupy_duplikatow_def)
  then obtain k where k: "k < length (grupy_duplikatow recs)"
    and gk: "grupy_duplikatow recs ! k = sortuj_grupe g"
    unfolding in_set_conv_nth by blast
  have "fst (i, recs ! i) \<in> fst ` set g" and "fst (j, recs ! j) \<in> fst ` set g"
    using xi xj by (blast intro: imageI)+
  then have "i \<in> fst ` set (grupy_duplikatow recs ! k)"
    and "j \<in> fst ` set (grupy_duplikatow recs ! k)"
    unfolding gk by simp_all
  with k show ?thesis by blast
qed

lemma grupy_hash_maja_hash:
  assumes "g \<in> set (grupy_hash recs)" and "x \<in> set g"
  shows "fst x < length recs \<and> hash_sha256 (recs ! fst x) \<noteq> []"
proof -
  obtain e h where h: "h \<noteq> []"
    and gd: "g = filter (\<lambda>x. rozszerzenie (snd x) = e \<and> hash_sha256 (snd x) = h) (enumerate 0 recs)"
    using assms(1) unfolding grupy_hash_member by blast
  have "x \<in> set (filter (\<lambda>x. rozszerzenie (snd x) = e \<and> hash_sha256 (snd x) = h) (enumerate 0 recs))"
    using assms(2) unfolding gd .
  then have a: "x \<in> set (enumerate 0 recs)" and b: "hash_sha256 (snd x) = h"
    by simp_all
  from a have c: "fst x < length recs" and d: "recs ! fst x = snd x"
    by (simp_all add: in_set_enumerate_eq)
  show ?thesis
    unfolding d b using c h by simp
qed

lemma bez_hasha_poza_grupa:
  assumes "hash_sha256 (recs ! i) = []" and "g \<in> set (grupy_hash recs)"
  shows "i \<notin> fst ` set g"
proof
  assume "i \<in> fst ` set g"
  then obtain x where x: "x \<in> set g" and ix: "fst x = i" by (elim imageE) simp
  from grupy_hash_maja_hash [OF assms(2) x]
  have "hash_sha256 (recs ! fst x) \<noteq> []" by simp
  then show False using assms(1) unfolding ix by simp
qed

lemma numer_po_oznaczeniu:
  assumes k: "k < length (grupy_duplikatow recs)" and x: "x \<in> set (grupy_duplikatow recs ! k)"
  shows "numer_grupy (id_grupy (oznacz_dokladne_duplikaty recs ! fst x)) = fmt02 (k + 1)"
proof -
  obtain p where p: "p < length (grupy_duplikatow recs ! k)"
    and xp: "x = grupy_duplikatow recs ! k ! p"
    using x by (auto simp: in_set_conv_nth)
  show ?thesis
    unfolding xp oznacz_dokladne_nth [OF k p]
    using numer_grupy_fmt02 [of "k + 1" "''o''"] numer_grupy_fmt02 [of "k + 1" "CHR ''D'' # cyfry p"]
    by (simp add: znacznik_def)
qed

lemma w_grupie_ma_duplikat:
  assumes g: "g \<in> set (grupy_duplikatow recs)" and i: "i \<in> fst ` set g"
  shows "ma_duplikat recs i"
proof -
  obtain g' where g': "g' \<in> set (grupy_hash recs)" and gs: "g = sortuj_grupe g'"
    using g unfolding grupy_duplikatow_def by auto
  have len: "1 < length g'"
    using grupy_duplikatow_dlugie [OF g] by (simp add: gs)
  obtain e h where h: "h \<noteq> []"
    and gd: "g' = filter (\<lambda>x. rozszerzenie (snd x) = e \<and> hash_sha256 (snd x) = h) (enumerate 0 recs)"
    using g' unfolding grupy_hash_member by blast
  have mem: "fst z < length recs \<and> recs ! fst z = snd z \<and> rozszerzenie (recs ! fst z) = e
             \<and> hash_sha256 (recs ! fst z) = h" if "z \<in> set g'" for z
  proof -
    have "z \<in> set (filter (\<lambda>x. rozszerzenie (snd x) = e \<and> hash_sha256 (snd x) = h) (enumerate 0 recs))"
      using that unfolding gd .
    then have a: "z \<in> set (enumerate 0 recs)" and b: "rozszerzenie (snd z) = e"
      and c: "hash_sha256 (snd z) = h"
      by simp_all
    from a have d: "fst z < length recs" and e: "recs ! fst z = snd z"
      by (simp_all add: in_set_enumerate_eq)
    show ?thesis
      unfolding e using d b c by simp
  qed
  obtain x where x: "x \<in> set g'" and ix: "fst x = i"
    using i unfolding gs sortuj_grupe_set by (elim imageE) simp
  have dg: "distinct g'"
    unfolding gd by (simp add: distinct_enumerate)
  obtain y where y: "y \<in> set g'" and yx: "y \<noteq> x"
    using other_in_list [OF dg len, of x] by blast
  have "fst y \<noteq> fst x"
  proof
    assume "fst y = fst x"
    then have "snd y = snd x"
      using mem [OF x] mem [OF y] by metis
    with \<open>fst y = fst x\<close> yx show False
      by (simp add: prod_eq_iff)
  qed
  then show ?thesis
    unfolding ma_duplikat_def using mem [OF x] mem [OF y] h unfolding ix by metis
qed

lemma ma_duplikat_w_grupie:
  assumes "i < length recs" and "ma_duplikat recs i"
  shows "\<exists>k < length (grupy_duplikatow recs). i \<in> fst ` set (grupy_duplikatow recs ! k)"
proof -
  obtain j where "j < length recs" "j \<noteq> i" "hash_sha256 (recs ! i) \<noteq> []"
    "hash_sha256 (recs ! j) = hash_sha256 (recs ! i)"
    "rozszerzenie (recs ! j) = rozszerzenie (recs ! i)"
    using assms(2) unfolding ma_duplikat_def by blast
  then show ?thesis
    using grupy_duplikatow_zupelne [of i recs j] assms(1) by blast
qed

lemma oznacz_dokladne_czlonek:
  assumes "i < length recs" and "ma_duplikat recs i"
  shows "\<exists>n p. oznacz_dokladne_duplikaty recs ! i = znacznik n p (recs ! i)
               \<and> numer_grupy (id_grupy (oznacz_dokladne_duplikaty recs ! i)) = fmt02 n"
proof -
  obtain k where k: "k < length (grupy_duplikatow recs)"
    and i: "i \<in> fst ` set (grupy_duplikatow recs ! k)"
    using ma_duplikat_w_grupie [OF assms] by blast
  obtain x where x: "x \<in> set (grupy_duplikatow recs ! k)" and ix: "fst x = i"
    using i by (elim imageE) simp
  obtain p where p: "p < length (grupy_duplikatow recs ! k)"
    and xp: "x = grupy_duplikatow recs ! k ! p"
    using x unfolding in_set_conv_nth by blast
  have a: "oznacz_dokladne_duplikaty recs ! i = znacznik (k + 1) p (recs ! i)"
    using oznacz_dokladne_nth [OF k p] unfolding xp [symmetric] ix .
  have b: "numer_grupy (id_grupy (oznacz_dokladne_duplikaty recs ! i)) = fmt02 (k + 1)"
    using numer_po_oznaczeniu [OF k x] unfolding ix .
  from a b show ?thesis by blast
qed

lemma oznacz_dokladne_nieczlonek:
  assumes "i < length recs" and "\<not> ma_duplikat recs i"
  shows "oznacz_dokladne_duplikaty recs ! i = recs ! i"
proof (rule oznacz_dokladne_poza_grupami)
  show "\<forall>g \<in> set (grupy_duplikatow recs). i \<notin> fst ` set g"
    using w_grupie_ma_duplikat [of _ recs i] assms(2) by blast
qed

lemma ten_sam_numer_ta_sama_grupa:
  assumes e: "\<forall>x \<in> set recs. id_grupy x = []"
    and i: "i < length recs" and j: "j < length recs"
    and ni: "id_grupy (oznacz_dokladne_duplikaty recs ! i) \<noteq> []"
    and nj: "id_grupy (oznacz_dokladne_duplikaty recs ! j) \<noteq> []"
    and n: "numer_grupy (id_grupy (oznacz_dokladne_duplikaty recs ! i))
              = numer_grupy (id_grupy (oznacz_dokladne_duplikaty recs ! j))"
  shows "rozszerzenie (recs ! i) = rozszerzenie (recs ! j)
         \<and> hash_sha256 (recs ! i) = hash_sha256 (recs ! j)"
proof -
  have em: "id_grupy (recs ! m) = []" if "m < length recs" for m
    using e that by simp
  have w: "\<exists>k < length (grupy_duplikatow recs). m \<in> fst ` set (grupy_duplikatow recs ! k)"
    if "m < length recs" "id_grupy (oznacz_dokladne_duplikaty recs ! m) \<noteq> []" for m
  proof (rule ccontr)
    assume "\<not> ?thesis"
    then have "\<not> ma_duplikat recs m"
      using ma_duplikat_w_grupie [OF that(1)] by blast
    then have "oznacz_dokladne_duplikaty recs ! m = recs ! m"
      by (rule oznacz_dokladne_nieczlonek [OF that(1)])
    then show False
      using that(2) em [OF that(1)] by simp
  qed
  obtain k where k: "k < length (grupy_duplikatow recs)"
    and ik: "i \<in> fst ` set (grupy_duplikatow recs ! k)"
    using w [OF i ni] by blast
  obtain k' where k': "k' < length (grupy_duplikatow recs)"
    and jk: "j \<in> fst ` set (grupy_duplikatow recs ! k')"
    using w [OF j nj] by blast
  obtain x where x: "x \<in> set (grupy_duplikatow recs ! k)" and ix: "fst x = i"
    using ik by (elim imageE) simp
  obtain y where y: "y \<in> set (grupy_duplikatow recs ! k')" and jy: "fst y = j"
    using jk by (elim imageE) simp
  have "fmt02 (k + 1) = fmt02 (k' + 1)"
    using numer_po_oznaczeniu [OF k x] numer_po_oznaczeniu [OF k' y] n
    unfolding ix jy by simp
  then have "k + 1 = k' + 1"
    by (rule fmt02_inj)
  then have kk: "k' = k" by simp
  have gin: "grupy_duplikatow recs ! k \<in> set (grupy_duplikatow recs)"
    using k by simp
  obtain e' h where md: "mset (grupy_duplikatow recs ! k)
      = mset (filter (\<lambda>x. rozszerzenie (snd x) = e' \<and> hash_sha256 (snd x) = h) (enumerate 0 recs))"
    using grupy_duplikatow_opis [OF gin] by blast
  have mem: "rozszerzenie (recs ! fst z) = e' \<and> hash_sha256 (recs ! fst z) = h"
    if "z \<in> set (grupy_duplikatow recs ! k)" for z
  proof -
    have "z \<in># mset (grupy_duplikatow recs ! k)"
      using that by simp
    then have "z \<in># mset (filter (\<lambda>x. rozszerzenie (snd x) = e' \<and> hash_sha256 (snd x) = h) (enumerate 0 recs))"
      unfolding md .
    then have "z \<in> set (filter (\<lambda>x. rozszerzenie (snd x) = e' \<and> hash_sha256 (snd x) = h) (enumerate 0 recs))"
      unfolding set_mset_mset .
    then have a: "z \<in> set (enumerate 0 recs)" and b: "rozszerzenie (snd z) = e'"
      and c: "hash_sha256 (snd z) = h"
      by simp_all
    from a have d: "recs ! fst z = snd z"
      by (simp add: in_set_enumerate_eq)
    show ?thesis
      unfolding d using b c by simp
  qed
  show ?thesis
    using mem [OF x] mem [OF y [unfolded kk]] unfolding ix jy by simp
qed

lemma map_filter_concat_map:
  "map f (filter P (concat (map F bs))) = concat (map (\<lambda>b. map f (filter P (F b))) bs)"
  by (induction bs) simp_all

lemma grupy_przykladu:
  "grupy_duplikatow przyklad_hash =
     [[(2, przyklad_hash ! 2), (0, przyklad_hash ! 0)],
      [(3, przyklad_hash ! 3), (4, przyklad_hash ! 4)]]"
  by code_simp

lemma fmt02_1: "fmt02 (Suc 0) = ''01''" by code_simp
lemma fmt02_2: "fmt02 (Suc (Suc 0)) = ''02''" by code_simp
lemma cyfry_1: "cyfry (Suc 0) = ''1''" by code_simp

lemma przyklad_foldery_0:
  "(\<forall>j < length przyklad_foldery.
      nazwa_bez_rozszerzenia (sciezka (przyklad_foldery ! j))
        = nazwa_bez_rozszerzenia (sciezka (przyklad_foldery ! 0)) \<longrightarrow> j = 0) = False"
  "(\<forall>j < length przyklad_foldery.
      nazwa_bez_rozszerzenia (sciezka (przyklad_foldery ! j))
        = nazwa_bez_rozszerzenia (sciezka (przyklad_foldery ! 0))
      \<longrightarrow> data_utworzenia (przyklad_foldery ! 0) < data_utworzenia (przyklad_foldery ! j)
          \<or> (data_utworzenia (przyklad_foldery ! 0) = data_utworzenia (przyklad_foldery ! j) \<and> 0 \<le> j))
     = False"
  by code_simp+

lemma przyklad_foldery_2:
  "(\<forall>j < length przyklad_foldery.
      nazwa_bez_rozszerzenia (sciezka (przyklad_foldery ! j))
        = nazwa_bez_rozszerzenia (sciezka (przyklad_foldery ! 2)) \<longrightarrow> j = 2) = False"
  "(\<forall>j < length przyklad_foldery.
      nazwa_bez_rozszerzenia (sciezka (przyklad_foldery ! j))
        = nazwa_bez_rozszerzenia (sciezka (przyklad_foldery ! 2))
      \<longrightarrow> data_utworzenia (przyklad_foldery ! 2) < data_utworzenia (przyklad_foldery ! j)
          \<or> (data_utworzenia (przyklad_foldery ! 2) = data_utworzenia (przyklad_foldery ! j) \<and> 2 \<le> j))
     = True"
  by code_simp+

lemma przyklad_foldery_3:
  "(\<forall>j < length przyklad_foldery.
      nazwa_bez_rozszerzenia (sciezka (przyklad_foldery ! j))
        = nazwa_bez_rozszerzenia (sciezka (przyklad_foldery ! 3)) \<longrightarrow> j = 3) = False"
  "(\<forall>j < length przyklad_foldery.
      nazwa_bez_rozszerzenia (sciezka (przyklad_foldery ! j))
        = nazwa_bez_rozszerzenia (sciezka (przyklad_foldery ! 3))
      \<longrightarrow> data_utworzenia (przyklad_foldery ! 3) < data_utworzenia (przyklad_foldery ! j)
          \<or> (data_utworzenia (przyklad_foldery ! 3) = data_utworzenia (przyklad_foldery ! j) \<and> 3 \<le> j))
     = False"
  by code_simp+

lemma przyklad_foldery_4:
  "(\<forall>j < length przyklad_foldery.
      nazwa_bez_rozszerzenia (sciezka (przyklad_foldery ! j))
        = nazwa_bez_rozszerzenia (sciezka (przyklad_foldery ! 4)) \<longrightarrow> j = 4) = True"
  by code_simp

subsection \<open>Fields that a stage leaves alone\<close>

lemma map_ustaw:
  assumes "p (f (m ! i)) = p (m ! i)"
  shows "map p (ustaw i f m) = map p m"
proof (cases "i < length m")
  case True
  then have "(map p m)[i := p (m ! i)] = map p m"
    by (metis list_update_id nth_map)
  then show ?thesis
    using assms by (simp add: ustaw_def map_update)
next
  case False
  then show ?thesis by (simp add: ustaw_def list_update_beyond)
qed

lemma map_zastosuj:
  assumes "\<And>a r. a \<in> set ps \<Longrightarrow> p (snd a r) = p r"
  shows "map p (zastosuj ps m) = map p m"
  using assms
proof (induction ps arbitrary: m)
  case Nil
  show ?case by simp
next
  case (Cons a ps)
  have "map p (zastosuj ps (ustaw (fst a) (snd a) m)) = map p (ustaw (fst a) (snd a) m)"
    using Cons.IH Cons.prems by simp
  also have "\<dots> = map p m"
    using Cons.prems [of a] by (intro map_ustaw) simp
  finally show ?case by simp
qed

lemma przypisania_nazw_flaga:
  assumes "a \<in> set (przypisania_nazw g)"
  shows "snd a = (\<lambda>r. r\<lparr>flaga := Oryginal\<rparr>) \<or> snd a = (\<lambda>r. r\<lparr>flaga := MozliwyDuplikat\<rparr>)"
  using assms by (auto simp: przypisania_nazw_def split: if_splits)

lemma oznacz_mozliwe_zachowuje:
  assumes "\<And>f r. p (r\<lparr>flaga := f\<rparr>) = p r"
  shows "map p (oznacz_mozliwe_duplikaty m) = map p m"
  unfolding oznacz_mozliwe_duplikaty_eq
proof (rule map_zastosuj)
  fix a r
  assume "a \<in> set (concat (map (\<lambda>kv. przypisania_nazw (snd kv)) (grupuj klucz_nazwy (enumerate 0 m))))"
  then obtain g where "a \<in> set (przypisania_nazw g)" by auto
  from przypisania_nazw_flaga [OF this] show "p (snd a r) = p r"
    using assms by auto
qed

lemma przypisania_hash_znacznik:
  assumes "a \<in> set (przypisania_hash c g)"
  shows "\<exists>q. snd a = znacznik c q"
proof -
  have "snd a = znacznik c 0 \<or> (\<exists>j. snd a = znacznik c (j + 1))"
    using assms by (auto simp: przypisania_hash_def znacznik_def [abs_def])
  then show ?thesis by blast
qed

lemma przypisania_grup_znacznik:
  assumes "a \<in> set (przypisania_grup c gs)"
  shows "\<exists>n q. snd a = znacznik n q"
proof -
  obtain jg where "a \<in> set (przypisania_hash (fst jg + 1) (snd jg))"
    using assms unfolding przypisania_grup_def by auto
  from przypisania_hash_znacznik [OF this] show ?thesis by blast
qed

lemma oznacz_dokladne_zachowuje:
  assumes "\<And>f s r. p (r\<lparr>flaga := f, id_grupy := s\<rparr>) = p r"
  shows "map p (oznacz_dokladne_duplikaty m) = map p m"
  unfolding oznacz_dokladne_duplikaty_eq
proof (rule map_zastosuj)
  fix a r
  assume "a \<in> set (przypisania_grup 0 (grupy_duplikatow m))"
  from przypisania_grup_znacznik [OF this] obtain n q where "snd a = znacznik n q" by blast
  then show "p (snd a r) = p r"
    using assms by (simp add: znacznik_def)
qed

lemma oznacz_dokladne_punktowo:
  assumes "i < length m"
  shows "oznacz_dokladne_duplikaty m ! i = m ! i
         \<or> (\<exists>n q. oznacz_dokladne_duplikaty m ! i = znacznik n q (m ! i))"
proof (cases "map_of (przypisania_grup 0 (grupy_duplikatow m)) i")
  case None
  then show ?thesis
    using zastosuj_nth [OF distinct_przypisania_grup [of 0 m] assms]
    by (simp add: oznacz_dokladne_duplikaty_eq)
next
  case (Some f)
  then have "(i, f) \<in> set (przypisania_grup 0 (grupy_duplikatow m))"
    by (rule map_of_SomeD)
  from przypisania_grup_znacznik [OF this] obtain n q where "f = znacznik n q" by auto
  then show ?thesis
    using Some zastosuj_nth [OF distinct_przypisania_grup [of 0 m] assms]
    by (auto simp: oznacz_dokladne_duplikaty_eq)
qed

lemma oblicz_hashe_eq:
  "oblicz_hashe env m =
     zastosuj (map (\<lambda>ih. (fst ih, \<lambda>r. r\<lparr>hash_sha256 := snd ih\<rparr>))
                 (map (oblicz_hash_pliku env) (enumerate 0 m))) m"
  by (simp add: oblicz_hashe_def zastosuj_def foldl_map)

lemma oblicz_hashe_zachowuje:
  assumes "\<And>h r. p (r\<lparr>hash_sha256 := h\<rparr>) = p r"
  shows "map p (oblicz_hashe env m) = map p m"
  unfolding oblicz_hashe_eq
  by (rule map_zastosuj) (use assms in auto)

lemma length_oblicz_hashe [simp]: "length (oblicz_hashe env m) = length m"
  by (simp add: oblicz_hashe_eq)

lemma krok_metadane_zachowuje:
  assumes "\<And>d n r. p ((wpisz_dane d r)\<lparr>narzedzie_analizy := n\<rparr>) = p r"
    and "\<And>b r. p (r\<lparr>blad_analizy := b\<rparr>) = p r"
  shows "map p (fst (krok_metadane s w)) = map p (fst s)"
proof (cases "fst (snd w)")
  case None
  then show ?thesis by (simp add: krok_metadane_def)
next
  case (Some d)
  have a: "map p (ustaw i (\<lambda>r. (wpisz_dane d r)\<lparr>narzedzie_analizy := n\<rparr>) m') = map p m'" for i n m'
    by (rule map_ustaw) (simp add: assms(1))
  have b: "map p (ustaw i (\<lambda>r. r\<lparr>blad_analizy := e\<rparr>) m') = map p m'" for i e m'
    by (rule map_ustaw) (simp add: assms(2))
  show ?thesis
    using Some a b by (simp add: krok_metadane_def Let_def)
qed

lemma pobierz_metadane_graficzne_zachowuje:
  assumes "\<And>d n r. p ((wpisz_dane d r)\<lparr>narzedzie_analizy := n\<rparr>) = p r"
    and "\<And>b r. p (r\<lparr>blad_analizy := b\<rparr>) = p r"
  shows "map p (fst (pobierz_metadane_graficzne env kolejnosc m)) = map p m"
proof -
  have "map p (fst (foldl krok_metadane s ws)) = map p (fst s)" for s ws
  proof (induction ws arbitrary: s)
    case Nil
    show ?case by simp
  next
    case (Cons w ws)
    show ?case
      using Cons.IH [of "krok_metadane s w"] krok_metadane_zachowuje [where p = p and s = s and w = w] assms
      by simp
  qed
  then show ?thesis
    by (simp add: pobierz_metadane_graficzne_def Let_def)
qed

subsection \<open>Discovery, base metadata and the records before the hash pass\<close>

lemma pliki_przetwarzaj_folder:
  "pliki (fst (przetwarzaj_folder env f r kolejnosc)) = Some (pliki_koncowe env f r kolejnosc)"
  by (simp add: przetwarzaj_folder_def pliki_koncowe_def metadane_z_hashami_def Let_def)

lemma snd_przetworz_plik [simp]: "snd (przetworz_plik p) = p"
  by (simp add: przetworz_plik_def Let_def)

lemma znajdz_i_posortuj_pliki_eq:
  "znajdz_i_posortuj_pliki env f r =
     map (\<lambda>k. (k, filter (\<lambda>p. kategoria p = k) (pliki_folderu env f r)))
       (pierwsze (map kategoria (pliki_folderu env f r)))"
proof -
  define L where "L = pliki_folderu env f r"
  have a: "map fst (map przetworz_plik L) = map kategoria L"
    by (simp add: kategoria_def)
  have b: "map snd (filter (\<lambda>x. fst x = k) (map przetworz_plik L))
             = filter (\<lambda>p. kategoria p = k) L" for k
    by (simp add: filter_map comp_def kategoria_def)
  have "znajdz_i_posortuj_pliki env f r = zbierz fst snd (map przetworz_plik L)"
    by (simp add: znajdz_i_posortuj_pliki_def zbierz_def L_def)
  also have "\<dots> = map (\<lambda>k. (k, map snd (filter (\<lambda>x. fst x = k) (map przetworz_plik L))))
                     (pierwsze (map fst (map przetworz_plik L)))"
    by (rule zbierz_eq)
  finally have "znajdz_i_posortuj_pliki env f r =
      map (\<lambda>k. (k, filter (\<lambda>p. kategoria p = k) L)) (pierwsze (map kategoria L))"
    unfolding a b .
  then show ?thesis
    by (simp add: L_def)
qed

lemma foldl_dopisz:
  "foldl (\<lambda>acc a. case f a of None \<Rightarrow> acc | Some y \<Rightarrow> acc @ [y]) acc xs
     = acc @ List.map_filter f xs"
  by (induction xs arbitrary: acc) (simp_all split: option.split)

lemma w_map_filter:
  "y \<in> set (List.map_filter f xs) \<longleftrightarrow> (\<exists>x \<in> set xs. f x = Some y)"
  by (induction xs) (auto split: option.splits)

lemma utworz_podstawowe_metadane_eq:
  "utworz_podstawowe_metadane env d = List.map_filter (utworz_metadane_pliku env) (wszystkie_pliki d)"
  by (simp add: utworz_podstawowe_metadane_def foldl_dopisz)

lemma utworz_metadane_pliku_pola:
  assumes "utworz_metadane_pliku env a = Some x"
  shows "sciezka x = fst a \<and> rozszerzenie x = snd a \<and> flaga x = Brak \<and> id_grupy x = []"
  using assms by (auto simp: utworz_metadane_pliku_def split: option.splits)

lemma utworz_metadane_pliku_None:
  "utworz_metadane_pliku env a = None \<longleftrightarrow> stat_pliku env (fst a) = None"
  by (simp add: utworz_metadane_pliku_def split: option.splits)

lemma sciezki_podstawowe:
  "map sciezka (List.map_filter (utworz_metadane_pliku env) ws)
     = filter (\<lambda>p. stat_pliku env p \<noteq> None) (map fst ws)"
proof (induction ws)
  case Nil
  show ?case by simp
next
  case (Cons a ws)
  show ?case
  proof (cases "utworz_metadane_pliku env a")
    case None
    then show ?thesis
      using Cons.IH utworz_metadane_pliku_None [of env a] by simp
  next
    case (Some x)
    then have "stat_pliku env (fst a) \<noteq> None"
      using utworz_metadane_pliku_None [of env a] by simp
    then show ?thesis
      using Some Cons.IH utworz_metadane_pliku_pola [OF Some] by simp
  qed
qed

lemma map_fst_wszystkie_pliki: "map fst (wszystkie_pliki d) = concat (map snd d)"
  by (induction d) (simp_all add: wszystkie_pliki_def comp_def)

lemma wszystkie_pliki_kategoria:
  assumes "a \<in> set (wszystkie_pliki (znajdz_i_posortuj_pliki env f r))"
  shows "snd a = kategoria (fst a)"
  using assms by (auto simp: wszystkie_pliki_def znajdz_i_posortuj_pliki_eq)

lemma podstawowe_pola:
  assumes "x \<in> set (utworz_podstawowe_metadane env (znajdz_i_posortuj_pliki env f r))"
  shows "rozszerzenie x = kategoria (sciezka x) \<and> flaga x = Brak \<and> id_grupy x = []"
proof -
  obtain a where a: "a \<in> set (wszystkie_pliki (znajdz_i_posortuj_pliki env f r))"
    and x: "utworz_metadane_pliku env a = Some x"
    using assms by (auto simp: utworz_podstawowe_metadane_eq w_map_filter)
  show ?thesis
    using utworz_metadane_pliku_pola [OF x] wszystkie_pliki_kategoria [OF a] by simp
qed

lemma sciezki_koncowe:
  "map sciezka (pliki_koncowe env f r kolejnosc)
     = filter (\<lambda>p. stat_pliku env p \<noteq> None)
         (concat (map (\<lambda>k. filter (\<lambda>p. kategoria p = k) (pliki_folderu env f r))
                    (pierwsze (map kategoria (pliki_folderu env f r)))))"
proof -
  define d where "d = znajdz_i_posortuj_pliki env f r"
  define m0 where "m0 = utworz_podstawowe_metadane env d"
  have "map sciezka (pliki_koncowe env f r kolejnosc)
          = map sciezka (oznacz_dokladne_duplikaty (metadane_z_hashami env f r))"
    unfolding pliki_koncowe_def
    by (rule pobierz_metadane_graficzne_zachowuje) (simp_all add: wpisz_dane_def)
  also have "\<dots> = map sciezka (metadane_z_hashami env f r)"
    by (rule oznacz_dokladne_zachowuje) simp
  also have "\<dots> = map sciezka (oznacz_mozliwe_duplikaty m0)"
    unfolding metadane_z_hashami_def m0_def d_def
    by (rule oblicz_hashe_zachowuje) simp
  also have "\<dots> = map sciezka m0"
    by (rule oznacz_mozliwe_zachowuje) simp
  also have "\<dots> = filter (\<lambda>p. stat_pliku env p \<noteq> None) (concat (map snd d))"
    by (simp add: m0_def utworz_podstawowe_metadane_eq sciezki_podstawowe map_fst_wszystkie_pliki)
  also have "map snd d = map (\<lambda>k. filter (\<lambda>p. kategoria p = k) (pliki_folderu env f r))
                           (pierwsze (map kategoria (pliki_folderu env f r)))"
    by (simp add: d_def znajdz_i_posortuj_pliki_eq comp_def)
  finally show ?thesis .
qed

lemma oznacz_mozliwe_flaga:
  assumes "i < length m"
  shows "flaga (oznacz_mozliwe_duplikaty m ! i) = flaga (m ! i)
         \<or> flaga (oznacz_mozliwe_duplikaty m ! i) = Oryginal
         \<or> flaga (oznacz_mozliwe_duplikaty m ! i) = MozliwyDuplikat"
proof -
  define ps where "ps = concat (map (\<lambda>kv. przypisania_nazw (snd kv)) (grupuj klucz_nazwy (enumerate 0 m)))"
  have d: "distinct (map fst ps)"
    unfolding ps_def by (rule distinct_przypisania_nazw)
  have r: "oznacz_mozliwe_duplikaty m = zastosuj ps m"
    unfolding ps_def by (rule oznacz_mozliwe_duplikaty_eq)
  show ?thesis
  proof (cases "map_of ps i")
    case None
    then show ?thesis
      using zastosuj_nth [OF d assms] by (simp add: r)
  next
    case (Some u)
    then have "(i, u) \<in> set ps" by (rule map_of_SomeD)
    then obtain g where "(i, u) \<in> set (przypisania_nazw g)"
      unfolding ps_def by auto
    from przypisania_nazw_flaga [OF this]
    have "u = (\<lambda>r. r\<lparr>flaga := Oryginal\<rparr>) \<or> u = (\<lambda>r. r\<lparr>flaga := MozliwyDuplikat\<rparr>)"
      by simp
    then show ?thesis
      using Some zastosuj_nth [OF d assms] by (auto simp: r)
  qed
qed

lemma przed_hash_pass:
  assumes "x \<in> set (metadane_z_hashami env f r)"
  shows "id_grupy x = [] \<and> flaga x \<noteq> Duplikat \<and> rozszerzenie x = kategoria (sciezka x)"
proof -
  define m0 where "m0 = utworz_podstawowe_metadane env (znajdz_i_posortuj_pliki env f r)"
  define m1 where "m1 = oznacz_mozliwe_duplikaty m0"
  define m2 where "m2 = oblicz_hashe env m1"
  have m2: "metadane_z_hashami env f r = m2"
    by (simp add: metadane_z_hashami_def m2_def m1_def m0_def)
  have len: "length m2 = length m0" "length m1 = length m0"
    by (simp_all add: m2_def m1_def)
  obtain i where i: "i < length m0" and x: "x = m2 ! i"
    using assms unfolding m2 in_set_conv_nth len by blast
  have p0: "rozszerzenie (m0 ! i) = kategoria (sciezka (m0 ! i)) \<and> flaga (m0 ! i) = Brak
            \<and> id_grupy (m0 ! i) = []"
    using podstawowe_pola [of "m0 ! i" env f r] i by (simp add: m0_def)
  have e: "map p m2 = map p m0"
    if "\<And>h r. p (r\<lparr>hash_sha256 := h\<rparr>) = p r" "\<And>u r. p (r\<lparr>flaga := u\<rparr>) = p r"
    for p :: "MetadanePliku \<Rightarrow> string"
    unfolding m2_def m1_def
    using oblicz_hashe_zachowuje [of p env] oznacz_mozliwe_zachowuje [of p] that by simp
  have n: "p (m2 ! i) = p (m0 ! i)"
    if "\<And>h r. p (r\<lparr>hash_sha256 := h\<rparr>) = p r" "\<And>u r. p (r\<lparr>flaga := u\<rparr>) = p r"
    for p :: "MetadanePliku \<Rightarrow> string"
    using e [OF that] i len by (metis nth_map)
  have "id_grupy (m2 ! i) = id_grupy (m0 ! i)" "rozszerzenie (m2 ! i) = rozszerzenie (m0 ! i)"
    "sciezka (m2 ! i) = sciezka (m0 ! i)"
    by (rule n; simp)+
  moreover have "flaga (m2 ! i) = flaga (m1 ! i)"
  proof -
    have "map flaga m2 = map flaga m1"
      unfolding m2_def by (rule oblicz_hashe_zachowuje) simp
    then show ?thesis
      using i len by (metis nth_map)
  qed
  moreover have "flaga (m1 ! i) \<noteq> Duplikat"
    using oznacz_mozliwe_flaga [of i m0] i p0 by (auto simp: m1_def)
  ultimately show ?thesis
    using p0 x by simp
qed

lemma po_hash_pass:
  assumes "i < length (metadane_z_hashami env f r)"
  shows "(id_grupy (oznacz_dokladne_duplikaty (metadane_z_hashami env f r) ! i) \<noteq> [] \<longrightarrow>
            flaga (oznacz_dokladne_duplikaty (metadane_z_hashami env f r) ! i) = Oryginal
            \<or> flaga (oznacz_dokladne_duplikaty (metadane_z_hashami env f r) ! i) = Duplikat)
         \<and> (flaga (oznacz_dokladne_duplikaty (metadane_z_hashami env f r) ! i) = Duplikat \<longrightarrow>
            id_grupy (oznacz_dokladne_duplikaty (metadane_z_hashami env f r) ! i) \<noteq> [])"
proof -
  define m where "m = metadane_z_hashami env f r"
  have "m ! i \<in> set m"
    using assms by (simp add: m_def)
  then have b: "id_grupy (m ! i) = []" "flaga (m ! i) \<noteq> Duplikat"
    using przed_hash_pass [of "m ! i" env f r] by (simp_all add: m_def)
  from oznacz_dokladne_punktowo [of i m] assms
  consider "oznacz_dokladne_duplikaty m ! i = m ! i"
    | n q where "oznacz_dokladne_duplikaty m ! i = znacznik n q (m ! i)"
    unfolding m_def by blast
  then show ?thesis
  proof cases
    case 1
    then show ?thesis using b by (simp add: m_def)
  next
    case 2
    then show ?thesis
      unfolding m_def [symmetric] by (simp add: znacznik_def)
  qed
qed

lemma pozostale_nie_graficzne: "pozostale \<notin> set GRAFICZNE_ROZSZERZENIA"
  by (simp add: pozostale_def GRAFICZNE_ROZSZERZENIA_def)

lemma ma_duplikat_cong:
  assumes h: "map hash_sha256 a = map hash_sha256 b"
    and e: "map rozszerzenie a = map rozszerzenie b"
    and i: "i < length a"
  shows "ma_duplikat a i = ma_duplikat b i"
proof -
  have len: "length a = length b"
    using h by (rule map_eq_imp_length_eq)
  have hk: "hash_sha256 (a ! k) = hash_sha256 (b ! k)" if "k < length a" for k
    using h that by (metis nth_map len)
  have ek: "rozszerzenie (a ! k) = rozszerzenie (b ! k)" if "k < length a" for k
    using e that by (metis nth_map len)
  show ?thesis
    unfolding ma_duplikat_def len [symmetric] using hk ek i by auto
qed

lemma koncowe_a_hash_pass:
  fixes p :: "MetadanePliku \<Rightarrow> 'a"
  assumes "\<And>d n r. p ((wpisz_dane d r)\<lparr>narzedzie_analizy := n\<rparr>) = p r"
    and "\<And>b r. p (r\<lparr>blad_analizy := b\<rparr>) = p r"
    and "i < length (metadane_z_hashami env f r)"
  shows "p (pliki_koncowe env f r kolejnosc ! i)
           = p (oznacz_dokladne_duplikaty (metadane_z_hashami env f r) ! i)"
proof -
  have "map p (pliki_koncowe env f r kolejnosc)
          = map p (oznacz_dokladne_duplikaty (metadane_z_hashami env f r))"
    unfolding pliki_koncowe_def
    using assms(1,2) by (rule pobierz_metadane_graficzne_zachowuje)
  then show ?thesis
    using assms(3) by (metis length_map length_oznacz_dokladne nth_map)
qed

lemma length_pliki_koncowe:
  "length (pliki_koncowe env f r kolejnosc) = length (metadane_z_hashami env f r)"
proof -
  have "map sciezka (pliki_koncowe env f r kolejnosc)
          = map sciezka (oznacz_dokladne_duplikaty (metadane_z_hashami env f r))"
    unfolding pliki_koncowe_def
    by (rule pobierz_metadane_graficzne_zachowuje) (simp_all add: wpisz_dane_def)
  then show ?thesis
    by (metis length_map length_oznacz_dokladne)
qed

lemma koncowe_a_hashe:
  fixes p :: "MetadanePliku \<Rightarrow> 'a"
  assumes "\<And>d n r. p ((wpisz_dane d r)\<lparr>narzedzie_analizy := n\<rparr>) = p r"
    and "\<And>b r. p (r\<lparr>blad_analizy := b\<rparr>) = p r"
    and "\<And>v r. p (r\<lparr>flaga := v\<rparr>) = p r"
    and "\<And>v r. p (r\<lparr>id_grupy := v\<rparr>) = p r"
  shows "map p (pliki_koncowe env f r kolejnosc) = map p (metadane_z_hashami env f r)"
proof -
  have "map p (pliki_koncowe env f r kolejnosc)
          = map p (oznacz_dokladne_duplikaty (metadane_z_hashami env f r))"
    unfolding pliki_koncowe_def
    using assms(1,2) by (rule pobierz_metadane_graficzne_zachowuje)
  also have "\<dots> = map p (metadane_z_hashami env f r)"
    by (rule oznacz_dokladne_zachowuje) (simp add: assms(3,4))
  finally show ?thesis .
qed

lemma flaga_przed_hash_pass:
  assumes "i < length (metadane_z_hashami env f r)"
  shows "flaga (metadane_z_hashami env f r ! i)
           = flaga (oznacz_mozliwe_duplikaty
                      (utworz_podstawowe_metadane env (znajdz_i_posortuj_pliki env f r)) ! i)"
proof -
  have "map flaga (metadane_z_hashami env f r)
          = map flaga (oznacz_mozliwe_duplikaty
                      (utworz_podstawowe_metadane env (znajdz_i_posortuj_pliki env f r)))"
    unfolding metadane_z_hashami_def by (rule oblicz_hashe_zachowuje) simp
  then show ?thesis
    using assms by (metis length_map nth_map)
qed

lemma ten_sam_numer_koncowe:
  assumes "pliki (fst (przetwarzaj_folder env f r kolejnosc)) = Some ps"
    and "i < length ps" and "j < length ps"
    and "id_grupy (ps ! i) \<noteq> []" and "id_grupy (ps ! j) \<noteq> []"
    and "numer_grupy (id_grupy (ps ! i)) = numer_grupy (id_grupy (ps ! j))"
  shows "rozszerzenie (ps ! i) = rozszerzenie (ps ! j)
         \<and> rozszerzenie (ps ! i) = fst (przetworz_plik (sciezka (ps ! i)))
         \<and> rozszerzenie (ps ! j) = fst (przetworz_plik (sciezka (ps ! j)))
         \<and> (lower (snd (splitext (sciezka (ps ! i)))) \<in> set GRAFICZNE_ROZSZERZENIA \<longrightarrow>
              lower (snd (splitext (sciezka (ps ! j)))) = lower (snd (splitext (sciezka (ps ! i)))))"
proof -
  define m where "m = metadane_z_hashami env f r"
  define m3 where "m3 = oznacz_dokladne_duplikaty m"
  have ps: "ps = pliki_koncowe env f r kolejnosc"
    using assms(1) by (simp add: pliki_przetwarzaj_folder)
  have len: "length ps = length m"
    unfolding ps m_def by (rule length_pliki_koncowe)
  have im: "i < length m" and jm: "j < length m"
    using assms(2,3) len by simp_all
  have idg: "id_grupy (ps ! k) = id_grupy (m3 ! k)" if "k < length m" for k
    unfolding ps m3_def m_def
    by (rule koncowe_a_hash_pass) (use that in \<open>simp_all add: wpisz_dane_def m_def\<close>)
  have es: "map rozszerzenie ps = map rozszerzenie m"
    unfolding ps m_def by (rule koncowe_a_hashe) (simp_all add: wpisz_dane_def)
  have ss: "map sciezka ps = map sciezka m"
    unfolding ps m_def by (rule koncowe_a_hashe) (simp_all add: wpisz_dane_def)
  have ek: "rozszerzenie (ps ! k) = rozszerzenie (m ! k)" if "k < length m" for k
    using es that len by (metis nth_map)
  have sk: "sciezka (ps ! k) = sciezka (m ! k)" if "k < length m" for k
    using ss that len by (metis nth_map)
  have e: "\<forall>x \<in> set m. id_grupy x = []"
    using przed_hash_pass [of _ env f r] unfolding m_def by blast
  have kat: "rozszerzenie (m ! k) = kategoria (sciezka (m ! k))" if "k < length m" for k
  proof -
    have "m ! k \<in> set m" using that by simp
    then show ?thesis
      using przed_hash_pass [of "m ! k" env f r] by (simp add: m_def)
  qed
  have "rozszerzenie (m ! i) = rozszerzenie (m ! j) \<and> hash_sha256 (m ! i) = hash_sha256 (m ! j)"
    using e im jm
  proof (rule ten_sam_numer_ta_sama_grupa)
    show "id_grupy (oznacz_dokladne_duplikaty m ! i) \<noteq> []"
      using assms(4) idg [OF im] by (simp add: m3_def)
    show "id_grupy (oznacz_dokladne_duplikaty m ! j) \<noteq> []"
      using assms(5) idg [OF jm] by (simp add: m3_def)
    show "numer_grupy (id_grupy (oznacz_dokladne_duplikaty m ! i))
            = numer_grupy (id_grupy (oznacz_dokladne_duplikaty m ! j))"
      using assms(6) idg [OF im] idg [OF jm] by (simp add: m3_def)
  qed
  then have same: "rozszerzenie (ps ! i) = rozszerzenie (ps ! j)"
    using ek [OF im] ek [OF jm] by simp
  have kx: "rozszerzenie (ps ! i) = kategoria (sciezka (ps ! i))"
    using kat [OF im] ek [OF im] sk [OF im] by simp
  have ky: "rozszerzenie (ps ! j) = kategoria (sciezka (ps ! j))"
    using kat [OF jm] ek [OF jm] sk [OF jm] by simp
  have "lower (snd (splitext (sciezka (ps ! j)))) = lower (snd (splitext (sciezka (ps ! i))))"
    if gx: "lower (snd (splitext (sciezka (ps ! i)))) \<in> set GRAFICZNE_ROZSZERZENIA"
  proof -
    have "kategoria (sciezka (ps ! i)) = lower (snd (splitext (sciezka (ps ! i))))"
      using gx by (simp add: kategoria_def przetworz_plik_def Let_def)
    then have "kategoria (sciezka (ps ! j)) \<in> set GRAFICZNE_ROZSZERZENIA"
      "kategoria (sciezka (ps ! j)) = lower (snd (splitext (sciezka (ps ! i))))"
      using same kx ky gx by simp_all
    then show ?thesis
      using pozostale_nie_graficzne
      by (auto simp: kategoria_def przetworz_plik_def Let_def split: if_splits)
  qed
  then show ?thesis
    using same kx ky by (simp add: kategoria_def)
qed

subsection \<open>The concrete inputs evaluated\<close>

lemma przyklad_koncowe:
  "map opis (pliki_koncowe env_przyklad ''/d'' False kolejnosc_przyklad)
     = [(''/d/a.png'', Oryginal, [], ''sha:A'', PIL),
        (''/d/b.png'', Oryginal, ''01-o'', ''sha:C'', PIL),
        (''/d/c.png'', Duplikat, ''01-D1'', ''sha:C'', PIL),
        (''/d/a.jpg'', MozliwyDuplikat, [], ''sha:B'', PIL),
        (''/d/x.txt'', Oryginal, ''02-o'', ''sha:D'', NieUzyto),
        (''/d/y.doc'', Duplikat, ''02-D1'', ''sha:D'', NieUzyto)]"
  by code_simp

lemma przyklad_sciezki:
  "map sciezka (pliki_koncowe env_przyklad ''/d'' False kolejnosc_przyklad)
     = [''/d/a.png'', ''/d/b.png'', ''/d/c.png'', ''/d/a.jpg'', ''/d/x.txt'', ''/d/y.doc'']"
proof -
  have "map sciezka xs = map fst (map opis xs)" for xs
    by (simp add: opis_def)
  then show ?thesis
    by (simp only: przyklad_koncowe) simp
qed

lemma przyklad_flagi:
  "map flaga (pliki_koncowe env_przyklad ''/d'' False kolejnosc_przyklad)
     = [Oryginal, Oryginal, Duplikat, MozliwyDuplikat, Oryginal, Duplikat]"
proof -
  have "map flaga xs = map (\<lambda>t. fst (snd t)) (map opis xs)" for xs
    by (simp add: opis_def)
  then show ?thesis
    by (simp only: przyklad_koncowe) simp
qed

lemma przyklad_id:
  "map id_grupy (pliki_koncowe env_przyklad ''/d'' False kolejnosc_przyklad)
     = [[], ''01-o'', ''01-D1'', [], ''02-o'', ''02-D1'']"
proof -
  have "map id_grupy xs = map (\<lambda>t. fst (snd (snd t))) (map opis xs)" for xs
    by (simp add: opis_def)
  then show ?thesis
    by (simp only: przyklad_koncowe) simp
qed

lemma przyklad_hashe:
  "map hash_sha256 (pliki_koncowe env_przyklad ''/d'' False kolejnosc_przyklad)
     = [''sha:A'', ''sha:C'', ''sha:C'', ''sha:B'', ''sha:D'', ''sha:D'']"
proof -
  have "map hash_sha256 xs = map (\<lambda>t. fst (snd (snd (snd t)))) (map opis xs)" for xs
    by (simp add: opis_def)
  then show ?thesis
    by (simp only: przyklad_koncowe) simp
qed

lemma przyklad_narzedzia:
  "map narzedzie_analizy (pliki_koncowe env_przyklad ''/d'' False kolejnosc_przyklad)
     = [PIL, PIL, PIL, PIL, NieUzyto, NieUzyto]"
proof -
  have "map narzedzie_analizy xs = map (\<lambda>t. snd (snd (snd (snd t)))) (map opis xs)" for xs
    by (simp add: opis_def)
  then show ?thesis
    by (simp only: przyklad_koncowe) simp
qed

lemma przyklad_grupy:
  "map (map fst) (grupy_hash (metadane_z_hashami env_przyklad ''/d'' False))
     = [[0], [1, 2], [3], [4, 5]]"
  by code_simp

lemma przyklad_etapy:
  "map fst (snd (przetwarzaj_folder env_przyklad ''/d'' False kolejnosc_przyklad))
     = [Wyszukiwanie, Wyszukiwanie, Wyszukiwanie,
        MetadanePodstawowe, MetadanePodstawowe, MetadanePodstawowe,
        MozliweDuplikaty, MozliweDuplikaty, MozliweDuplikaty, MozliweDuplikaty, MozliweDuplikaty,
        Hash, Hash, Hash,
        DokladneDuplikaty, DokladneDuplikaty, DokladneDuplikaty, DokladneDuplikaty,
        DokladneDuplikaty, DokladneDuplikaty,
        MetadaneGraficzne, Zakonczono]"
  by code_simp

lemma remis_koncowe:
  "map opis (pliki_koncowe env_remis ''/d'' False [0, 1, 2])
     = [(''/d/x.png'', Brak, [], ''sha:/d/x.png'', PIL),
        (''/d/a.png'', Oryginal, [], ''sha:/d/a.png'', PIL),
        (''/d/a.jpg'', MozliwyDuplikat, [], ''sha:/d/a.jpg'', PIL)]"
  by code_simp

lemma przyklad_hash_id:
  "map id_grupy (oznacz_dokladne_duplikaty przyklad_hash) = [''01-D1'', [], ''01-o'', ''02-o'', ''02-D1'']"
  by code_simp

lemma map_eq_nth: "map f xs = ys \<Longrightarrow> i < length ys \<Longrightarrow> f (xs ! i) = ys ! i"
  by (metis length_map nth_map)

lemma map_eq_length: "map f xs = ys \<Longrightarrow> length xs = length ys"
  by (metis length_map)

section \<open>The properties\<close>

text \<open>
  Claim C1. For the k-th group of more than one record (counting from zero, in the
  order of the loops), the members are exactly the records of one extension bucket with
  one non-empty hash, in ascending order of creation time. The first gets the flag
  \<open>Oryginal\<close> and the id made of the number \<open>k + 1\<close> in two digits and \<open>-o\<close>; the member
  at position \<open>p > 0\<close> gets \<open>Duplikat\<close> and the same number followed by \<open>-D\<close> and \<open>p\<close>.
  Whatever flag a member had before is overwritten, so none stays \<open>MozliwyDuplikat\<close>.
  Any two different records with the same bucket and the same non-empty hash are in
  such a group.
\<close>

theorem hash_pass_marks_groups:
  "(\<forall>k < length (grupy_duplikatow recs).
      1 < length (grupy_duplikatow recs ! k)
      \<and> (\<exists>e h. h \<noteq> [] \<and>
            mset (grupy_duplikatow recs ! k)
              = mset (filter (\<lambda>x. rozszerzenie (snd x) = e \<and> hash_sha256 (snd x) = h)
                        (enumerate 0 recs)))
      \<and> sorted (map (\<lambda>x. data_utworzenia (snd x)) (grupy_duplikatow recs ! k))
      \<and> oznacz_dokladne_duplikaty recs ! fst (grupy_duplikatow recs ! k ! 0)
          = (recs ! fst (grupy_duplikatow recs ! k ! 0))
              \<lparr>flaga := Oryginal, id_grupy := fmt02 (k + 1) @ ''-o''\<rparr>
      \<and> (\<forall>p. 0 < p \<and> p < length (grupy_duplikatow recs ! k) \<longrightarrow>
            oznacz_dokladne_duplikaty recs ! fst (grupy_duplikatow recs ! k ! p)
              = (recs ! fst (grupy_duplikatow recs ! k ! p))
                  \<lparr>flaga := Duplikat, id_grupy := fmt02 (k + 1) @ ''-D'' @ cyfry p\<rparr>)
      \<and> (\<forall>x \<in> set (grupy_duplikatow recs ! k).
            flaga (oznacz_dokladne_duplikaty recs ! fst x) \<noteq> MozliwyDuplikat))
   \<and> (\<forall>i < length recs. \<forall>j < length recs.
        i \<noteq> j \<and> hash_sha256 (recs ! i) \<noteq> []
        \<and> hash_sha256 (recs ! j) = hash_sha256 (recs ! i)
        \<and> rozszerzenie (recs ! j) = rozszerzenie (recs ! i)
        \<longrightarrow> (\<exists>k < length (grupy_duplikatow recs).
               i \<in> fst ` set (grupy_duplikatow recs ! k)
               \<and> j \<in> fst ` set (grupy_duplikatow recs ! k)))"
proof (intro conjI allI impI)
  fix k
  assume k: "k < length (grupy_duplikatow recs)"
  define g where "g = grupy_duplikatow recs ! k"
  have gin: "g \<in> set (grupy_duplikatow recs)"
    using k by (simp add: g_def)
  show "1 < length (grupy_duplikatow recs ! k)"
    using gin grupy_duplikatow_dlugie unfolding g_def by blast
  then have len: "1 < length g" by (simp add: g_def)
  show "\<exists>e h. h \<noteq> [] \<and>
            mset (grupy_duplikatow recs ! k)
              = mset (filter (\<lambda>x. rozszerzenie (snd x) = e \<and> hash_sha256 (snd x) = h)
                        (enumerate 0 recs))"
    using grupy_duplikatow_opis [OF gin] unfolding g_def .
  show "sorted (map (\<lambda>x. data_utworzenia (snd x)) (grupy_duplikatow recs ! k))"
    using grupy_duplikatow_sorted [OF gin] unfolding g_def .
  have "0 < length (grupy_duplikatow recs ! k)"
    using len unfolding g_def by linarith
  from oznacz_dokladne_nth [OF k this]
  show "oznacz_dokladne_duplikaty recs ! fst (grupy_duplikatow recs ! k ! 0)
          = (recs ! fst (grupy_duplikatow recs ! k ! 0))
              \<lparr>flaga := Oryginal, id_grupy := fmt02 (k + 1) @ ''-o''\<rparr>"
    by (simp add: znacznik_def)
  show "\<forall>x \<in> set (grupy_duplikatow recs ! k).
            flaga (oznacz_dokladne_duplikaty recs ! fst x) \<noteq> MozliwyDuplikat"
  proof
    fix x
    assume "x \<in> set (grupy_duplikatow recs ! k)"
    then obtain p where p: "p < length (grupy_duplikatow recs ! k)"
      and x: "x = grupy_duplikatow recs ! k ! p"
      by (auto simp: in_set_conv_nth)
    show "flaga (oznacz_dokladne_duplikaty recs ! fst x) \<noteq> MozliwyDuplikat"
      unfolding x oznacz_dokladne_nth [OF k p] by (simp add: znacznik_def)
  qed
next
  fix k p
  assume k: "k < length (grupy_duplikatow recs)"
    and p: "0 < p \<and> p < length (grupy_duplikatow recs ! k)"
  then have "p < length (grupy_duplikatow recs ! k)" and "p \<noteq> 0" by simp_all
  with oznacz_dokladne_nth [OF k, of p]
  show "oznacz_dokladne_duplikaty recs ! fst (grupy_duplikatow recs ! k ! p)
              = (recs ! fst (grupy_duplikatow recs ! k ! p))
                  \<lparr>flaga := Duplikat, id_grupy := fmt02 (k + 1) @ ''-D'' @ cyfry p\<rparr>"
    by (simp add: znacznik_def)
next
  fix i j
  assume "i < length recs" "j < length recs"
    and "i \<noteq> j \<and> hash_sha256 (recs ! i) \<noteq> []
        \<and> hash_sha256 (recs ! j) = hash_sha256 (recs ! i)
        \<and> rozszerzenie (recs ! j) = rozszerzenie (recs ! i)"
  then show "\<exists>k < length (grupy_duplikatow recs).
               i \<in> fst ` set (grupy_duplikatow recs ! k)
               \<and> j \<in> fst ` set (grupy_duplikatow recs ! k)"
    using grupy_duplikatow_zupelne [of i recs j] by blast
qed

theorem hash_pass_marks_groups_witness:
  "oznacz_dokladne_duplikaty przyklad_hash ! 2
     = (przyklad_hash ! 2)\<lparr>flaga := Oryginal, id_grupy := ''01-o''\<rparr>
   \<and> oznacz_dokladne_duplikaty przyklad_hash ! 0
     = (przyklad_hash ! 0)\<lparr>flaga := Duplikat, id_grupy := ''01-D1''\<rparr>
   \<and> oznacz_dokladne_duplikaty przyklad_hash ! 4
     = (przyklad_hash ! 4)\<lparr>flaga := Duplikat, id_grupy := ''02-D1''\<rparr>
   \<and> flaga (oznacz_dokladne_duplikaty przyklad_hash ! 0) \<noteq> MozliwyDuplikat"
proof -
  have k0: "0 < length (grupy_duplikatow przyklad_hash)"
    and k1: "1 < length (grupy_duplikatow przyklad_hash)"
    by (simp_all add: grupy_przykladu)
  note a = hash_pass_marks_groups [of przyklad_hash, THEN conjunct1, rule_format, OF k0]
  note b = hash_pass_marks_groups [of przyklad_hash, THEN conjunct1, rule_format, OF k1]
  have "oznacz_dokladne_duplikaty przyklad_hash ! 2
     = (przyklad_hash ! 2)\<lparr>flaga := Oryginal, id_grupy := ''01-o''\<rparr>"
    using a [THEN conjunct2, THEN conjunct2, THEN conjunct2, THEN conjunct1]
    by (simp add: grupy_przykladu fmt02_1)
  moreover have "oznacz_dokladne_duplikaty przyklad_hash ! 0
     = (przyklad_hash ! 0)\<lparr>flaga := Duplikat, id_grupy := ''01-D1''\<rparr>"
    using a [THEN conjunct2, THEN conjunct2, THEN conjunct2, THEN conjunct2, THEN conjunct1, rule_format, of 1]
    by (simp add: grupy_przykladu fmt02_1 cyfry_1)
  moreover have "oznacz_dokladne_duplikaty przyklad_hash ! 4
     = (przyklad_hash ! 4)\<lparr>flaga := Duplikat, id_grupy := ''02-D1''\<rparr>"
    using b [THEN conjunct2, THEN conjunct2, THEN conjunct2, THEN conjunct2, THEN conjunct1, rule_format, of 1]
    by (simp add: grupy_przykladu fmt02_2 cyfry_1)
  ultimately show ?thesis by simp
qed

text \<open>
  Claim C2, as the code has it. The name pass groups the records by the file name without
  extension: the part of the path after its last slash, up to the last dot of that part.
  A record whose name no other record shares is left as it was. In a group of more than
  one, the record with the earliest creation time becomes \<open>Oryginal\<close> and every other
  record of the group becomes \<open>MozliwyDuplikat\<close>; only the flag changes. Of several
  records with that same earliest time, the one that comes first in the list given to the
  pass wins. In the pipeline that list is not in the order of discovery: it holds the
  files bucket after bucket, the buckets in the order of their first file and each bucket
  in the order of discovery. So when \<^verbatim>\<open>x.png\<close>, \<^verbatim>\<open>a.jpg\<close> and \<^verbatim>\<open>a.png\<close> are found in this
  order and have the same creation time, \<^verbatim>\<open>a.png\<close> becomes \<open>Oryginal\<close> although
  \<^verbatim>\<open>a.jpg\<close> was found first.
\<close>

theorem name_pass_marks_by_name:
  "length (oznacz_mozliwe_duplikaty recs) = length recs
   \<and> (\<forall>i < length recs.
        oznacz_mozliwe_duplikaty recs ! i =
          (if \<forall>j < length recs.
                nazwa_bez_rozszerzenia (sciezka (recs ! j)) = nazwa_bez_rozszerzenia (sciezka (recs ! i))
                \<longrightarrow> j = i
           then recs ! i
           else if \<forall>j < length recs.
                     nazwa_bez_rozszerzenia (sciezka (recs ! j)) = nazwa_bez_rozszerzenia (sciezka (recs ! i))
                     \<longrightarrow> data_utworzenia (recs ! i) < data_utworzenia (recs ! j)
                         \<or> (data_utworzenia (recs ! i) = data_utworzenia (recs ! j) \<and> i \<le> j)
                then (recs ! i)\<lparr>flaga := Oryginal\<rparr>
                else (recs ! i)\<lparr>flaga := MozliwyDuplikat\<rparr>))
   \<and> (\<forall>d n e. CHR ''/'' \<notin> set n \<and> CHR ''/'' \<notin> set e \<and> CHR ''.'' \<notin> set e
                \<and> (\<exists>c \<in> set n. c \<noteq> CHR ''.'')
                \<longrightarrow> nazwa_bez_rozszerzenia (d @ ''/'' @ n @ ''.'' @ e) = n)
   \<and> (\<forall>d n. CHR ''/'' \<notin> set n \<and> CHR ''.'' \<notin> set n
              \<longrightarrow> nazwa_bez_rozszerzenia (d @ ''/'' @ n) = n)
   \<and> map sciezka (utworz_podstawowe_metadane env (znajdz_i_posortuj_pliki env f r))
       = filter (\<lambda>p. stat_pliku env p \<noteq> None)
           (concat (map (\<lambda>k. filter (\<lambda>p. fst (przetworz_plik p) = k) (pliki_folderu env f r))
                      (pierwsze (map (\<lambda>p. fst (przetworz_plik p)) (pliki_folderu env f r)))))"
proof (intro conjI allI impI)
  show "length (oznacz_mozliwe_duplikaty recs) = length recs"
    by (rule length_oznacz_mozliwe)
next
  fix i
  assume "i < length recs"
  from oznacz_mozliwe_punktowo [OF this]
  show "oznacz_mozliwe_duplikaty recs ! i =
          (if \<forall>j < length recs.
                nazwa_bez_rozszerzenia (sciezka (recs ! j)) = nazwa_bez_rozszerzenia (sciezka (recs ! i))
                \<longrightarrow> j = i
           then recs ! i
           else if \<forall>j < length recs.
                     nazwa_bez_rozszerzenia (sciezka (recs ! j)) = nazwa_bez_rozszerzenia (sciezka (recs ! i))
                     \<longrightarrow> data_utworzenia (recs ! i) < data_utworzenia (recs ! j)
                         \<or> (data_utworzenia (recs ! i) = data_utworzenia (recs ! j) \<and> i \<le> j)
                then (recs ! i)\<lparr>flaga := Oryginal\<rparr>
                else (recs ! i)\<lparr>flaga := MozliwyDuplikat\<rparr>)"
    unfolding najstarszy_def ta_sama_nazwa_def .
next
  fix d n e
  assume "CHR ''/'' \<notin> set n \<and> CHR ''/'' \<notin> set e \<and> CHR ''.'' \<notin> set e
                \<and> (\<exists>c \<in> set n. c \<noteq> CHR ''.'')"
  then show "nazwa_bez_rozszerzenia (d @ ''/'' @ n @ ''.'' @ e) = n"
    using nazwa_bez_rozszerzenia_z_rozszerzeniem [of n e d] by blast
next
  fix d n
  assume "CHR ''/'' \<notin> set n \<and> CHR ''.'' \<notin> set n"
  then show "nazwa_bez_rozszerzenia (d @ ''/'' @ n) = n"
    using nazwa_bez_rozszerzenia_bez_kropki [of n d] by blast
next
  show "map sciezka (utworz_podstawowe_metadane env (znajdz_i_posortuj_pliki env f r))
       = filter (\<lambda>p. stat_pliku env p \<noteq> None)
           (concat (map (\<lambda>k. filter (\<lambda>p. fst (przetworz_plik p) = k) (pliki_folderu env f r))
                      (pierwsze (map (\<lambda>p. fst (przetworz_plik p)) (pliki_folderu env f r)))))"
    by (simp add: utworz_podstawowe_metadane_eq sciezki_podstawowe map_fst_wszystkie_pliki
        znajdz_i_posortuj_pliki_eq comp_def kategoria_def [abs_def])
qed

theorem name_pass_marks_by_name_witness:
  "oznacz_mozliwe_duplikaty przyklad_foldery ! 0 = (przyklad_foldery ! 0)\<lparr>flaga := MozliwyDuplikat\<rparr>
   \<and> oznacz_mozliwe_duplikaty przyklad_foldery ! 2 = (przyklad_foldery ! 2)\<lparr>flaga := Oryginal\<rparr>
   \<and> oznacz_mozliwe_duplikaty przyklad_foldery ! 3 = (przyklad_foldery ! 3)\<lparr>flaga := MozliwyDuplikat\<rparr>
   \<and> oznacz_mozliwe_duplikaty przyklad_foldery ! 4 = przyklad_foldery ! 4
   \<and> nazwa_bez_rozszerzenia ''/e/sub/a.jpg'' = ''a''
   \<and> nazwa_bez_rozszerzenia ''/f/a'' = ''a''"
proof -
  have l: "0 < length przyklad_foldery" "2 < length przyklad_foldery"
    "3 < length przyklad_foldery" "4 < length przyklad_foldery"
    by (simp_all add: przyklad_foldery_def)
  note p = name_pass_marks_by_name [of przyklad_foldery, THEN conjunct2, THEN conjunct1, rule_format]
  note k = name_pass_marks_by_name [of przyklad_foldery, THEN conjunct2, THEN conjunct2,
                  THEN conjunct1, rule_format, of "''a''" "''jpg''" "''/e/sub''"]
  note n = name_pass_marks_by_name [of przyklad_foldery, THEN conjunct2, THEN conjunct2,
                  THEN conjunct2, THEN conjunct1, rule_format, of "''a''" "''/f''"]
  have "nazwa_bez_rozszerzenia ''/e/sub/a.jpg'' = ''a''"
    using k by simp
  moreover have "nazwa_bez_rozszerzenia ''/f/a'' = ''a''"
    using n by simp
  moreover have "oznacz_mozliwe_duplikaty przyklad_foldery ! 0
                   = (przyklad_foldery ! 0)\<lparr>flaga := MozliwyDuplikat\<rparr>"
    using p [OF l(1)] unfolding przyklad_foldery_0 by simp
  moreover have "oznacz_mozliwe_duplikaty przyklad_foldery ! 2
                   = (przyklad_foldery ! 2)\<lparr>flaga := Oryginal\<rparr>"
    using p [OF l(2)] unfolding przyklad_foldery_2 by simp
  moreover have "oznacz_mozliwe_duplikaty przyklad_foldery ! 3
                   = (przyklad_foldery ! 3)\<lparr>flaga := MozliwyDuplikat\<rparr>"
    using p [OF l(3)] unfolding przyklad_foldery_3 by simp
  moreover have "oznacz_mozliwe_duplikaty przyklad_foldery ! 4 = przyklad_foldery ! 4"
    using p [OF l(4)] unfolding przyklad_foldery_4 by simp
  ultimately show ?thesis by simp
qed

theorem tie_break_discovery_order_counterexample:
  "pliki_folderu env_remis ''/d'' False = [''/d/x.png'', ''/d/a.jpg'', ''/d/a.png'']
   \<and> stat_pliku env_remis ''/d/a.jpg'' = stat_pliku env_remis ''/d/a.png''
   \<and> map_option (map sciezka) (pliki (fst (przetwarzaj_folder env_remis ''/d'' False [0, 1, 2])))
       = Some [''/d/x.png'', ''/d/a.png'', ''/d/a.jpg'']
   \<and> map_option (map flaga) (pliki (fst (przetwarzaj_folder env_remis ''/d'' False [0, 1, 2])))
       = Some [Brak, Oryginal, MozliwyDuplikat]"
proof -
  have a: "map sciezka xs = map fst (map opis xs)" for xs
    by (simp add: opis_def)
  have b: "map flaga xs = map (\<lambda>t. fst (snd t)) (map opis xs)" for xs
    by (simp add: opis_def)
  have "map sciezka (pliki_koncowe env_remis ''/d'' False [0, 1, 2])
          = [''/d/x.png'', ''/d/a.png'', ''/d/a.jpg'']"
    unfolding a remis_koncowe by simp
  moreover have "map flaga (pliki_koncowe env_remis ''/d'' False [0, 1, 2])
          = [Brak, Oryginal, MozliwyDuplikat]"
    unfolding b remis_koncowe by simp
  moreover have "pliki_folderu env_remis ''/d'' False = [''/d/x.png'', ''/d/a.jpg'', ''/d/a.png'']"
    "stat_pliku env_remis ''/d/a.jpg'' = stat_pliku env_remis ''/d/a.png''"
    by (simp_all add: env_remis_def)
  ultimately show ?thesis
    by (simp add: pliki_przetwarzaj_folder)
qed

text \<open>
  Claim C3, as the code has it. In the final list of files a record has a non-empty
  group id exactly when it has a duplicate: a non-empty hash that another record of the
  same extension bucket shares. Such a record is \<open>Oryginal\<close> with an id of the form
  \<^verbatim>\<open>{n}-o\<close> or \<open>Duplikat\<close> with an id of the form \<^verbatim>\<open>{n}-D{p}\<close>, \<open>p\<close> positive. Every
  other record has an empty id and the flag that the name pass gave it, which is
  \<open>Brak\<close>, \<open>Oryginal\<close> or \<open>MozliwyDuplikat\<close>. Hence a non-empty id implies the flag
  \<open>Oryginal\<close> or \<open>Duplikat\<close>, the flag \<open>Duplikat\<close> implies a non-empty id, and the flag
  \<open>MozliwyDuplikat\<close> implies an empty id. That every flagged record has an id fails: the
  name pass sets flags and never a group id. In the example the first record is
  \<open>Oryginal\<close> and the fourth \<open>MozliwyDuplikat\<close>, both with an empty id.
\<close>

theorem group_id_iff_hash_group:
  assumes "pliki (fst (przetwarzaj_folder env f r kolejnosc)) = Some ps" and "i < length ps"
  shows "(id_grupy (ps ! i) \<noteq> [] \<longleftrightarrow> ma_duplikat ps i)
         \<and> (ma_duplikat ps i \<longrightarrow>
              (flaga (ps ! i) = Oryginal \<and> (\<exists>n. id_grupy (ps ! i) = fmt02 n @ ''-o''))
              \<or> (flaga (ps ! i) = Duplikat
                   \<and> (\<exists>n p. 0 < p \<and> id_grupy (ps ! i) = fmt02 n @ ''-D'' @ cyfry p)))
         \<and> (\<not> ma_duplikat ps i \<longrightarrow>
              flaga (ps ! i) = flaga (oznacz_mozliwe_duplikaty
                   (utworz_podstawowe_metadane env (znajdz_i_posortuj_pliki env f r)) ! i)
              \<and> (flaga (ps ! i) = Brak \<or> flaga (ps ! i) = Oryginal \<or> flaga (ps ! i) = MozliwyDuplikat))
         \<and> (id_grupy (ps ! i) \<noteq> [] \<longrightarrow> flaga (ps ! i) = Oryginal \<or> flaga (ps ! i) = Duplikat)
         \<and> (flaga (ps ! i) = Duplikat \<longrightarrow> id_grupy (ps ! i) \<noteq> [])
         \<and> (flaga (ps ! i) = MozliwyDuplikat \<longrightarrow> id_grupy (ps ! i) = [])"
proof -
  define m where "m = metadane_z_hashami env f r"
  define m3 where "m3 = oznacz_dokladne_duplikaty m"
  define m1 where "m1 = oznacz_mozliwe_duplikaty
                   (utworz_podstawowe_metadane env (znajdz_i_posortuj_pliki env f r))"
  have ps: "ps = pliki_koncowe env f r kolejnosc"
    using assms(1) by (simp add: pliki_przetwarzaj_folder)
  have len: "length ps = length m"
    unfolding ps m_def by (rule length_pliki_koncowe)
  have im: "i < length m"
    using assms(2) len by simp
  have fl: "flaga (ps ! i) = flaga (m3 ! i)"
    unfolding ps m3_def m_def
    by (rule koncowe_a_hash_pass) (use im in \<open>simp_all add: wpisz_dane_def m_def\<close>)
  have idg: "id_grupy (ps ! i) = id_grupy (m3 ! i)"
    unfolding ps m3_def m_def
    by (rule koncowe_a_hash_pass) (use im in \<open>simp_all add: wpisz_dane_def m_def\<close>)
  have hs: "map hash_sha256 ps = map hash_sha256 m"
    unfolding ps m_def by (rule koncowe_a_hashe) (simp_all add: wpisz_dane_def)
  have es: "map rozszerzenie ps = map rozszerzenie m"
    unfolding ps m_def by (rule koncowe_a_hashe) (simp_all add: wpisz_dane_def)
  have md: "ma_duplikat ps i = ma_duplikat m i"
    using hs es assms(2) by (rule ma_duplikat_cong)
  have "m ! i \<in> set m"
    using im by simp
  then have b: "id_grupy (m ! i) = []" "flaga (m ! i) \<noteq> Duplikat"
    using przed_hash_pass [of "m ! i" env f r] by (simp_all add: m_def)
  have f1: "flaga (m ! i) = flaga (m1 ! i)"
    unfolding m_def m1_def by (rule flaga_przed_hash_pass) (use im in \<open>simp add: m_def\<close>)
  have f2: "flaga (m1 ! i) = Brak \<or> flaga (m1 ! i) = Oryginal \<or> flaga (m1 ! i) = MozliwyDuplikat"
    using b(2) f1 by (cases "flaga (m1 ! i)") simp_all
  let ?X = "flaga (ps ! i) = Oryginal \<and> (\<exists>n. id_grupy (ps ! i) = fmt02 n @ ''-o'')"
  let ?Y = "flaga (ps ! i) = Duplikat
              \<and> (\<exists>n p. 0 < p \<and> id_grupy (ps ! i) = fmt02 n @ ''-D'' @ cyfry p)"
  let ?Z = "flaga (ps ! i) = flaga (m1 ! i)
              \<and> (flaga (ps ! i) = Brak \<or> flaga (ps ! i) = Oryginal \<or> flaga (ps ! i) = MozliwyDuplikat)"
  have c: "(id_grupy (ps ! i) \<noteq> [] \<longleftrightarrow> ma_duplikat ps i)
           \<and> (ma_duplikat ps i \<longrightarrow> ?X \<or> ?Y) \<and> (\<not> ma_duplikat ps i \<longrightarrow> ?Z)"
  proof (cases "ma_duplikat m i")
    case True
    then have M: "ma_duplikat ps i"
      using md by simp
    obtain n p where z: "m3 ! i = znacznik n p (m ! i)"
      using oznacz_dokladne_czlonek [OF im True] unfolding m3_def by blast
    have ne: "id_grupy (ps ! i) \<noteq> []"
      unfolding idg z by (simp add: znacznik_def)
    have "?X \<or> ?Y"
    proof (cases "p = 0")
      case p0: True
      have a: "flaga (ps ! i) = Oryginal" and b: "id_grupy (ps ! i) = fmt02 n @ ''-o''"
        unfolding fl idg z using p0 by (simp_all add: znacznik_def)
      from b have "\<exists>n. id_grupy (ps ! i) = fmt02 n @ ''-o''"
        by (rule exI)
      with a have ?X by (rule conjI)
      then show ?thesis by (rule disjI1)
    next
      case p1: False
      have a: "flaga (ps ! i) = Duplikat"
        and b: "id_grupy (ps ! i) = fmt02 n @ ''-D'' @ cyfry p"
        unfolding fl idg z using p1 by (simp_all add: znacznik_def)
      have "0 < p" using p1 by simp
      then have "0 < p \<and> id_grupy (ps ! i) = fmt02 n @ ''-D'' @ cyfry p"
        using b by (rule conjI)
      then have "\<exists>p. 0 < p \<and> id_grupy (ps ! i) = fmt02 n @ ''-D'' @ cyfry p"
        by (rule exI)
      then have "\<exists>n p. 0 < p \<and> id_grupy (ps ! i) = fmt02 n @ ''-D'' @ cyfry p"
        by (rule exI)
      with a have ?Y by (rule conjI)
      then show ?thesis by (rule disjI2)
    qed
    then have c2: "ma_duplikat ps i \<longrightarrow> ?X \<or> ?Y"
      by (rule impI)
    have c1: "id_grupy (ps ! i) \<noteq> [] \<longleftrightarrow> ma_duplikat ps i"
      using M ne by simp
    have c3: "\<not> ma_duplikat ps i \<longrightarrow> ?Z"
      using M by simp
    show ?thesis
      by (rule conjI [OF c1 conjI [OF c2 c3]])
  next
    case False
    then have M: "\<not> ma_duplikat ps i"
      using md by simp
    have "m3 ! i = m ! i"
      unfolding m3_def using im False by (rule oznacz_dokladne_nieczlonek)
    then have a: "flaga (ps ! i) = flaga (m1 ! i)" and b: "id_grupy (ps ! i) = []"
      unfolding fl idg using b(1) f1 by simp_all
    have "flaga (ps ! i) = Brak \<or> flaga (ps ! i) = Oryginal \<or> flaga (ps ! i) = MozliwyDuplikat"
      unfolding a by (rule f2)
    with a have ?Z
      by (rule conjI)
    then have c3: "\<not> ma_duplikat ps i \<longrightarrow> ?Z"
      by (rule impI)
    have c1: "id_grupy (ps ! i) \<noteq> [] \<longleftrightarrow> ma_duplikat ps i"
      using M b by simp
    have c2: "ma_duplikat ps i \<longrightarrow> ?X \<or> ?Y"
      using M by simp
    show ?thesis
      by (rule conjI [OF c1 conjI [OF c2 c3]])
  qed
  have d: "id_grupy (ps ! i) \<noteq> [] \<longrightarrow> flaga (ps ! i) = Oryginal \<or> flaga (ps ! i) = Duplikat"
  proof
    assume "id_grupy (ps ! i) \<noteq> []"
    then have "?X \<or> ?Y" using c by simp
    then show "flaga (ps ! i) = Oryginal \<or> flaga (ps ! i) = Duplikat"
      by (elim disjE conjE) simp_all
  qed
  have e: "flaga (ps ! i) = Duplikat \<longrightarrow> id_grupy (ps ! i) \<noteq> []"
  proof
    assume du: "flaga (ps ! i) = Duplikat"
    show "id_grupy (ps ! i) \<noteq> []"
    proof (cases "ma_duplikat ps i")
      case True
      then show ?thesis using c by simp
    next
      case False
      then have "flaga (ps ! i) = Brak \<or> flaga (ps ! i) = Oryginal \<or> flaga (ps ! i) = MozliwyDuplikat"
        using c by blast
      then show ?thesis using du by auto
    qed
  qed
  have g: "flaga (ps ! i) = MozliwyDuplikat \<longrightarrow> id_grupy (ps ! i) = []"
    using d by auto
  show ?thesis
    unfolding m1_def [symmetric]
    by (intro conjI) (rule c [THEN conjunct1] c [THEN conjunct2, THEN conjunct1]
        c [THEN conjunct2, THEN conjunct2] d e g)+
qed

theorem group_id_iff_hash_group_witness:
  "flaga (pliki_koncowe env_przyklad ''/d'' False kolejnosc_przyklad ! 2) = Duplikat
   \<and> id_grupy (pliki_koncowe env_przyklad ''/d'' False kolejnosc_przyklad ! 2) = ''01-D1''
   \<and> ma_duplikat (pliki_koncowe env_przyklad ''/d'' False kolejnosc_przyklad) 2
   \<and> flaga (pliki_koncowe env_przyklad ''/d'' False kolejnosc_przyklad ! 0) = Oryginal
   \<and> id_grupy (pliki_koncowe env_przyklad ''/d'' False kolejnosc_przyklad ! 0) = []
   \<and> \<not> ma_duplikat (pliki_koncowe env_przyklad ''/d'' False kolejnosc_przyklad) 0
   \<and> flaga (oznacz_mozliwe_duplikaty (utworz_podstawowe_metadane env_przyklad
               (znajdz_i_posortuj_pliki env_przyklad ''/d'' False)) ! 0) = Oryginal"
proof -
  define ps where "ps = pliki_koncowe env_przyklad ''/d'' False kolejnosc_przyklad"
  have h: "pliki (fst (przetwarzaj_folder env_przyklad ''/d'' False kolejnosc_przyklad)) = Some ps"
    by (simp add: pliki_przetwarzaj_folder ps_def)
  have len: "0 < length ps" "2 < length ps"
    using map_eq_length [OF przyklad_id] by (simp_all add: ps_def)
  have i0: "id_grupy (ps ! 0) = []" and i2: "id_grupy (ps ! 2) = ''01-D1''"
    using map_eq_nth [OF przyklad_id, of 0] map_eq_nth [OF przyklad_id, of 2]
    by (simp_all add: ps_def)
  have f0: "flaga (ps ! 0) = Oryginal" and f2: "flaga (ps ! 2) = Duplikat"
    using map_eq_nth [OF przyklad_flagi, of 0] map_eq_nth [OF przyklad_flagi, of 2]
    by (simp_all add: ps_def)
  note t0 = group_id_iff_hash_group [OF h len(1)]
  note t2 = group_id_iff_hash_group [OF h len(2)]
  have m2: "ma_duplikat ps 2"
    using t2 [THEN conjunct1] i2 by simp
  have m0: "\<not> ma_duplikat ps 0"
    using t0 [THEN conjunct1] i0 by simp
  have n0: "flaga (oznacz_mozliwe_duplikaty (utworz_podstawowe_metadane env_przyklad
               (znajdz_i_posortuj_pliki env_przyklad ''/d'' False)) ! 0) = Oryginal"
    using t0 [THEN conjunct2, THEN conjunct2, THEN conjunct1] m0 f0 by simp
  show ?thesis
    using i0 i2 f0 f2 m0 m2 n0 unfolding ps_def by simp
qed

theorem group_id_iff_flag_counterexample:
  "map_option (map flaga) (pliki (fst (przetwarzaj_folder env_przyklad ''/d'' False kolejnosc_przyklad)))
     = Some [Oryginal, Oryginal, Duplikat, MozliwyDuplikat, Oryginal, Duplikat]
   \<and> map_option (map id_grupy) (pliki (fst (przetwarzaj_folder env_przyklad ''/d'' False kolejnosc_przyklad)))
     = Some [[], ''01-o'', ''01-D1'', [], ''02-o'', ''02-D1'']"
  by (simp add: pliki_przetwarzaj_folder przyklad_flagi przyklad_id)

text \<open>
  Claim C4 at a concrete run. The callback returns \<^verbatim>\<open>False\<close> on every report of the
  hashing stage. The worker's cell is set and the worker answers with the failure
  dictionary, but the processor has gone on: the reports of the two later stages and the
  final one follow those of the hashing stage, every graphic file has been analysed and
  the hash pass has written its group ids. The runner then overwrites \<^verbatim>\<open>sukces\<close> with
  \<^verbatim>\<open>True\<close>.
\<close>

theorem cancel_does_not_stop_stages:
  "anulowano przerwij_przy_hash (snd (przetwarzaj_folder env_przyklad ''/d'' False kolejnosc_przyklad))
   \<and> worker_przetwarzaj_folder env_przyklad przerwij_przy_hash ''/d'' False kolejnosc_przyklad
       = Inr \<lparr>sukces = Some False, komunikat = Some komunikat_anulowania,
              pliki = None, narzedzia_analizy = None\<rparr>
   \<and> map fst (snd (przetwarzaj_folder env_przyklad ''/d'' False kolejnosc_przyklad))
       = [Wyszukiwanie, Wyszukiwanie, Wyszukiwanie,
          MetadanePodstawowe, MetadanePodstawowe, MetadanePodstawowe,
          MozliweDuplikaty, MozliweDuplikaty, MozliweDuplikaty, MozliweDuplikaty, MozliweDuplikaty,
          Hash, Hash, Hash,
          DokladneDuplikaty, DokladneDuplikaty, DokladneDuplikaty, DokladneDuplikaty,
          DokladneDuplikaty, DokladneDuplikaty,
          MetadaneGraficzne, Zakonczono]
   \<and> map_option (map narzedzie_analizy)
        (pliki (fst (przetwarzaj_folder env_przyklad ''/d'' False kolejnosc_przyklad)))
       = Some [PIL, PIL, PIL, PIL, NieUzyto, NieUzyto]
   \<and> map_option (map id_grupy)
        (pliki (fst (przetwarzaj_folder env_przyklad ''/d'' False kolejnosc_przyklad)))
       = Some [[], ''01-o'', ''01-D1'', [], ''02-o'', ''02-D1'']
   \<and> analizuj_folder_tekstur env_przyklad (Some przerwij_przy_hash) ''/d'' False kolejnosc_przyklad
       = \<lparr>sukces = Some True, komunikat = Some komunikat_anulowania,
          pliki = None, narzedzia_analizy = None\<rparr>"
proof -
  have an: "anulowano przerwij_przy_hash rs = (Hash \<in> set (map fst rs))" for rs
  proof -
    have "foldl (\<lambda>canceled r. if \<not> przerwij_przy_hash r then True else canceled) c rs
            = (c \<or> Hash \<in> set (map fst rs))" for c
      by (induction rs arbitrary: c) (auto simp: przerwij_przy_hash_def)
    then show ?thesis by (simp add: anulowano_def)
  qed
  have a: "anulowano przerwij_przy_hash (snd (przetwarzaj_folder env_przyklad ''/d'' False kolejnosc_przyklad))"
    unfolding an przyklad_etapy by simp
  have d: "isdir env_przyklad ''/d''"
    by (simp add: env_przyklad_def)
  have w: "worker_przetwarzaj_folder env_przyklad przerwij_przy_hash ''/d'' False kolejnosc_przyklad
       = Inr \<lparr>sukces = Some False, komunikat = Some komunikat_anulowania,
              pliki = None, narzedzia_analizy = None\<rparr>"
    using a d by (simp add: worker_przetwarzaj_folder_def przetwarzaj_folder_tekstur_def)
  have r: "analizuj_folder_tekstur env_przyklad (Some przerwij_przy_hash) ''/d'' False kolejnosc_przyklad
       = \<lparr>sukces = Some True, komunikat = Some komunikat_anulowania,
          pliki = None, narzedzia_analizy = None\<rparr>"
    using d by (simp add: analizuj_folder_tekstur_def w)
  show ?thesis
    using a w r
    by (simp add: przyklad_etapy pliki_przetwarzaj_folder przyklad_narzedzia przyklad_id)
qed

text \<open>
  Claim C5, as the code has it. The hash pass writes the number of a group into the ids
  of its members. When no record has an id before the pass, two records whose ids after
  the pass carry the same group number have the same extension bucket and the same
  hash. In the final list of files, two records with the same group number have the same
  bucket, and the bucket of a record is the category that discovery gave its path: the
  extension in lower case when that is one of the graphic extensions, the one bucket of
  all other files otherwise. So a file with a graphic extension only ever shares a group
  number with files of the same extension (compared in lower case). Files with different
  extensions outside the graphic set share the bucket and are grouped when their content
  is the same, as \<^verbatim>\<open>x.txt\<close> and \<^verbatim>\<open>y.doc\<close> in the example.
\<close>

theorem same_group_number_same_bucket:
  "((\<forall>x \<in> set recs. id_grupy x = []) \<and> a < length recs \<and> b < length recs
      \<and> id_grupy (oznacz_dokladne_duplikaty recs ! a) \<noteq> []
      \<and> id_grupy (oznacz_dokladne_duplikaty recs ! b) \<noteq> []
      \<and> numer_grupy (id_grupy (oznacz_dokladne_duplikaty recs ! a))
          = numer_grupy (id_grupy (oznacz_dokladne_duplikaty recs ! b))
     \<longrightarrow> rozszerzenie (oznacz_dokladne_duplikaty recs ! a)
           = rozszerzenie (oznacz_dokladne_duplikaty recs ! b)
         \<and> hash_sha256 (oznacz_dokladne_duplikaty recs ! a)
           = hash_sha256 (oznacz_dokladne_duplikaty recs ! b))
   \<and> (pliki (fst (przetwarzaj_folder env f r kolejnosc)) = Some ps
      \<and> i < length ps \<and> j < length ps
      \<and> id_grupy (ps ! i) \<noteq> [] \<and> id_grupy (ps ! j) \<noteq> []
      \<and> numer_grupy (id_grupy (ps ! i)) = numer_grupy (id_grupy (ps ! j))
     \<longrightarrow> rozszerzenie (ps ! i) = rozszerzenie (ps ! j)
         \<and> rozszerzenie (ps ! i) = fst (przetworz_plik (sciezka (ps ! i)))
         \<and> rozszerzenie (ps ! j) = fst (przetworz_plik (sciezka (ps ! j)))
         \<and> (lower (snd (splitext (sciezka (ps ! i)))) \<in> set GRAFICZNE_ROZSZERZENIA \<longrightarrow>
              lower (snd (splitext (sciezka (ps ! j)))) = lower (snd (splitext (sciezka (ps ! i))))))"
proof (intro conjI impI; elim conjE)
  assume e: "\<forall>x \<in> set recs. id_grupy x = []" and a: "a < length recs" and b: "b < length recs"
    and na: "id_grupy (oznacz_dokladne_duplikaty recs ! a) \<noteq> []"
    and nb: "id_grupy (oznacz_dokladne_duplikaty recs ! b) \<noteq> []"
    and n: "numer_grupy (id_grupy (oznacz_dokladne_duplikaty recs ! a))
          = numer_grupy (id_grupy (oznacz_dokladne_duplikaty recs ! b))"
  have r: "map rozszerzenie (oznacz_dokladne_duplikaty recs) = map rozszerzenie recs"
    by (rule oznacz_dokladne_zachowuje) simp
  have h: "map hash_sha256 (oznacz_dokladne_duplikaty recs) = map hash_sha256 recs"
    by (rule oznacz_dokladne_zachowuje) simp
  have rk: "rozszerzenie (oznacz_dokladne_duplikaty recs ! k) = rozszerzenie (recs ! k)"
    if "k < length recs" for k
    using map_eq_nth [OF r, of k] that by simp
  have hk: "hash_sha256 (oznacz_dokladne_duplikaty recs ! k) = hash_sha256 (recs ! k)"
    if "k < length recs" for k
    using map_eq_nth [OF h, of k] that by simp
  have t: "rozszerzenie (recs ! a) = rozszerzenie (recs ! b)
           \<and> hash_sha256 (recs ! a) = hash_sha256 (recs ! b)"
    using e a b na nb n by (rule ten_sam_numer_ta_sama_grupa)
  show "rozszerzenie (oznacz_dokladne_duplikaty recs ! a)
           = rozszerzenie (oznacz_dokladne_duplikaty recs ! b)"
    unfolding rk [OF a] rk [OF b] using t by (rule conjunct1)
  show "hash_sha256 (oznacz_dokladne_duplikaty recs ! a)
           = hash_sha256 (oznacz_dokladne_duplikaty recs ! b)"
    unfolding hk [OF a] hk [OF b] using t by (rule conjunct2)
next
  assume p: "pliki (fst (przetwarzaj_folder env f r kolejnosc)) = Some ps"
    and i: "i < length ps" and j: "j < length ps"
    and ni: "id_grupy (ps ! i) \<noteq> []" and nj: "id_grupy (ps ! j) \<noteq> []"
    and n: "numer_grupy (id_grupy (ps ! i)) = numer_grupy (id_grupy (ps ! j))"
  note t = ten_sam_numer_koncowe [OF p i j ni nj n]
  show "rozszerzenie (ps ! i) = rozszerzenie (ps ! j)"
    using t by (rule conjunct1)
  show "rozszerzenie (ps ! i) = fst (przetworz_plik (sciezka (ps ! i)))"
    using t [THEN conjunct2] by (rule conjunct1)
  show "rozszerzenie (ps ! j) = fst (przetworz_plik (sciezka (ps ! j)))"
    using t [THEN conjunct2, THEN conjunct2] by (rule conjunct1)
  assume "lower (snd (splitext (sciezka (ps ! i)))) \<in> set GRAFICZNE_ROZSZERZENIA"
  then show "lower (snd (splitext (sciezka (ps ! j)))) = lower (snd (splitext (sciezka (ps ! i))))"
    using t [THEN conjunct2, THEN conjunct2, THEN conjunct2] by (rule rev_mp)
qed

theorem same_group_number_same_bucket_witness:
  "rozszerzenie (oznacz_dokladne_duplikaty przyklad_hash ! 0)
     = rozszerzenie (oznacz_dokladne_duplikaty przyklad_hash ! 2)
   \<and> id_grupy (pliki_koncowe env_przyklad ''/d'' False kolejnosc_przyklad ! Suc 0) = ''01-o''
   \<and> id_grupy (pliki_koncowe env_przyklad ''/d'' False kolejnosc_przyklad ! 2) = ''01-D1''
   \<and> rozszerzenie (pliki_koncowe env_przyklad ''/d'' False kolejnosc_przyklad ! Suc 0)
     = rozszerzenie (pliki_koncowe env_przyklad ''/d'' False kolejnosc_przyklad ! 2)
   \<and> lower (snd (splitext ''/d/c.png'')) = lower (snd (splitext ''/d/b.png''))"
proof -
  define ps where "ps = pliki_koncowe env_przyklad ''/d'' False kolejnosc_przyklad"
  define qs where "qs = oznacz_dokladne_duplikaty przyklad_hash"
  have e: "\<forall>x \<in> set przyklad_hash. id_grupy x = []"
    by (simp add: przyklad_hash_def rekord_def)
  have lq: "0 < length przyklad_hash" "2 < length przyklad_hash"
    by (simp_all add: przyklad_hash_def)
  have q0: "id_grupy (qs ! 0) = ''01-D1''" and q2: "id_grupy (qs ! 2) = ''01-o''"
    using map_eq_nth [OF przyklad_hash_id, of 0] map_eq_nth [OF przyklad_hash_id, of 2]
    by (simp_all add: qs_def)
  have nq: "numer_grupy (id_grupy (qs ! 0)) = numer_grupy (id_grupy (qs ! 2))"
    unfolding q0 q2 by (simp add: numer_grupy_def)
  have h: "pliki (fst (przetwarzaj_folder env_przyklad ''/d'' False kolejnosc_przyklad)) = Some ps"
    by (simp add: pliki_przetwarzaj_folder ps_def)
  have len: "Suc 0 < length ps" "2 < length ps"
    using map_eq_length [OF przyklad_id] by (simp_all add: ps_def)
  have i1: "id_grupy (ps ! Suc 0) = ''01-o''" and i2: "id_grupy (ps ! 2) = ''01-D1''"
    using map_eq_nth [OF przyklad_id, of "Suc 0"] map_eq_nth [OF przyklad_id, of 2]
    by (simp_all add: ps_def)
  have s1: "sciezka (ps ! Suc 0) = ''/d/b.png''" and s2: "sciezka (ps ! 2) = ''/d/c.png''"
    using map_eq_nth [OF przyklad_sciezki, of "Suc 0"] map_eq_nth [OF przyklad_sciezki, of 2]
    by (simp_all add: ps_def)
  have np: "numer_grupy (id_grupy (ps ! Suc 0)) = numer_grupy (id_grupy (ps ! 2))"
    unfolding i1 i2 by (simp add: numer_grupy_def)
  have gr: "lower (snd (splitext ''/d/b.png'')) \<in> set GRAFICZNE_ROZSZERZENIA"
    by code_simp
  note t = same_group_number_same_bucket [of przyklad_hash 0 2 env_przyklad "''/d''" False kolejnosc_przyklad ps "Suc 0" 2]
  have a: "rozszerzenie (qs ! 0) = rozszerzenie (qs ! 2)"
    using t [THEN conjunct1] e lq q0 q2 nq unfolding qs_def by simp
  have b: "rozszerzenie (ps ! Suc 0) = rozszerzenie (ps ! 2)
           \<and> lower (snd (splitext ''/d/c.png'')) = lower (snd (splitext ''/d/b.png''))"
    using t [THEN conjunct2] h len i1 i2 np gr unfolding s1 s2 by simp
  show ?thesis
    using a b i1 i2 unfolding qs_def ps_def by simp
qed

theorem cross_extension_group_counterexample:
  "zawartosc env_przyklad ''/d/x.txt'' = zawartosc env_przyklad ''/d/y.doc''
   \<and> snd (splitext ''/d/x.txt'') = ''.txt'' \<and> snd (splitext ''/d/y.doc'') = ''.doc''
   \<and> map fst (grupy_hash (metadane_z_hashami env_przyklad ''/d'' False) ! 3) = [4, 5]
   \<and> map sciezka (metadane_z_hashami env_przyklad ''/d'' False) ! 4 = ''/d/x.txt''
   \<and> map sciezka (metadane_z_hashami env_przyklad ''/d'' False) ! 5 = ''/d/y.doc''
   \<and> map_option (map id_grupy) (pliki (fst (przetwarzaj_folder env_przyklad ''/d'' False kolejnosc_przyklad)))
     = Some [[], ''01-o'', ''01-D1'', [], ''02-o'', ''02-D1'']"
proof -
  have a: "zawartosc env_przyklad ''/d/x.txt'' = zawartosc env_przyklad ''/d/y.doc''"
    by (simp add: env_przyklad_def)
  have b: "snd (splitext ''/d/x.txt'') = ''.txt''" "snd (splitext ''/d/y.doc'') = ''.doc''"
    by code_simp+
  have c: "map fst (grupy_hash (metadane_z_hashami env_przyklad ''/d'' False) ! 3) = [4, 5]"
    using map_eq_nth [OF przyklad_grupy, of 3] by simp
  have d: "map sciezka (metadane_z_hashami env_przyklad ''/d'' False)
             = [''/d/a.png'', ''/d/b.png'', ''/d/c.png'', ''/d/a.jpg'', ''/d/x.txt'', ''/d/y.doc'']"
    by code_simp
  have e: "map sciezka (metadane_z_hashami env_przyklad ''/d'' False) ! 4 = ''/d/x.txt''"
    "map sciezka (metadane_z_hashami env_przyklad ''/d'' False) ! 5 = ''/d/y.doc''"
    unfolding d by simp_all
  have f: "map_option (map id_grupy) (pliki (fst (przetwarzaj_folder env_przyklad ''/d'' False kolejnosc_przyklad)))
     = Some [[], ''01-o'', ''01-D1'', [], ''02-o'', ''02-D1'']"
    by (simp add: pliki_przetwarzaj_folder przyklad_id)
  show ?thesis
    using a b c e f by blast
qed

text \<open>
  Claim C6 at two concrete runs, each on one \<^verbatim>\<open>.png\<close> record with the external tool
  absent. When the decoding library succeeds, the record gets its data and the tool name,
  and the error counter becomes one while no success counter moves. When the library
  fails, no counter moves at all and the record keeps an empty tool name.
\<close>

theorem tool_counters_miscount:
  "snd (pobierz_metadane_graficzne env_przyklad [0] jeden_png)
     = \<lparr>s_oiiotool = 0, s_PIL = 0, s_brak = 0, s_blad = 1,
        formaty_oiiotool_poprawnie = 0, formaty_oiiotool_niepoprawnie = 0\<rparr>
   \<and> map narzedzie_analizy (fst (pobierz_metadane_graficzne env_przyklad [0] jeden_png)) = [PIL]
   \<and> map blad_analizy (fst (pobierz_metadane_graficzne env_przyklad [0] jeden_png)) = [[]]
   \<and> map szerokosc (fst (pobierz_metadane_graficzne env_przyklad [0] jeden_png)) = [Some 64]
   \<and> snd (pobierz_metadane_graficzne env_awaria [0] jeden_png)
     = \<lparr>s_oiiotool = 0, s_PIL = 0, s_brak = 0, s_blad = 0,
        formaty_oiiotool_poprawnie = 0, formaty_oiiotool_niepoprawnie = 0\<rparr>
   \<and> map narzedzie_analizy (fst (pobierz_metadane_graficzne env_awaria [0] jeden_png)) = [NieUzyto]"
  by code_simp

text \<open>
  Claim C7, as the code has it. Whatever the order in which the image-metadata tasks
  complete, the paths of the final list are: bucket after bucket in the order in which
  the buckets first occur in the enumeration of discovery, within a bucket in the order
  of the enumeration, without the files whose \<^verbatim>\<open>os.stat\<close> failed. This is not the order
  of discovery when the extensions interleave, as in the example.
\<close>

theorem final_order_by_bucket:
  "map_option (map sciezka) (pliki (fst (przetwarzaj_folder env f r kolejnosc)))
     = Some (filter (\<lambda>p. stat_pliku env p \<noteq> None)
               (concat (map (\<lambda>k. filter (\<lambda>p. fst (przetworz_plik p) = k) (pliki_folderu env f r))
                          (pierwsze (map (\<lambda>p. fst (przetworz_plik p)) (pliki_folderu env f r))))))"
  using sciezki_koncowe [of env f r kolejnosc]
  by (simp add: pliki_przetwarzaj_folder kategoria_def [abs_def])

theorem discovery_order_counterexample:
  "pliki_folderu env_przyklad ''/d'' False
     = [''/d/a.png'', ''/d/a.jpg'', ''/d/b.png'', ''/d/c.png'', ''/d/x.txt'', ''/d/y.doc'']
   \<and> map_option (map sciezka) (pliki (fst (przetwarzaj_folder env_przyklad ''/d'' False kolejnosc_przyklad)))
     = Some [''/d/a.png'', ''/d/b.png'', ''/d/c.png'', ''/d/a.jpg'', ''/d/x.txt'', ''/d/y.doc'']"
  by (simp add: pliki_przetwarzaj_folder przyklad_sciezki) (simp add: env_przyklad_def)

text \<open>
  Claim C8. When the root path is not a directory, the runner returns at once the
  dictionary with \<^verbatim>\<open>sukces\<close> false and a message that is not empty, without a list of
  files or statistics; no function of the environment other than the directory test
  enters the result. The processor's own entry point raises \<^verbatim>\<open>ValueError\<close> with a
  message before any stage.
\<close>

theorem missing_root_fails:
  assumes "\<not> isdir env sciezka_folderu"
  shows "analizuj_folder_tekstur env callback_statusu sciezka_folderu przeszukuj_podfoldery kolejnosc
           = \<lparr>sukces = Some False,
              komunikat = Some (''Podany folder nie istnieje: '' @ sciezka_folderu),
              pliki = None, narzedzia_analizy = None\<rparr>
         \<and> ''Podany folder nie istnieje: '' @ sciezka_folderu \<noteq> []
         \<and> (\<exists>msg. msg \<noteq> [] \<and>
               przetwarzaj_folder_tekstur env sciezka_folderu przeszukuj_podfoldery kolejnosc
                 = Inl (ValueError msg))"
  using assms by (simp add: analizuj_folder_tekstur_def przetwarzaj_folder_tekstur_def)

theorem missing_root_fails_witness:
  "analizuj_folder_tekstur env_przyklad None ''/brak'' False []
     = \<lparr>sukces = Some False, komunikat = Some ''Podany folder nie istnieje: /brak'',
        pliki = None, narzedzia_analizy = None\<rparr>"
proof -
  have "\<not> isdir env_przyklad ''/brak''"
    by (simp add: env_przyklad_def)
  from missing_root_fails [OF this, of None False "[]"] show ?thesis by simp
qed

text \<open>
  Claim C9. A record whose hash is empty (hashing failed) is in no hash group, and
  the hash pass leaves it as it was: flag and group id keep the values they had.
\<close>

theorem unhashed_record_untouched:
  assumes "i < length recs" and "hash_sha256 (recs ! i) = []"
  shows "oznacz_dokladne_duplikaty recs ! i = recs ! i
         \<and> (\<forall>g \<in> set (grupy_hash recs). i \<notin> fst ` set g)"
proof
  show "\<forall>g \<in> set (grupy_hash recs). i \<notin> fst ` set g"
    using bez_hasha_poza_grupa [OF assms(2)] by blast
  have "\<forall>g \<in> set (grupy_duplikatow recs). i \<notin> fst ` set g"
  proof
    fix g
    assume "g \<in> set (grupy_duplikatow recs)"
    then obtain g' where g': "g' \<in> set (grupy_hash recs)" and g: "g = sortuj_grupe g'"
      unfolding grupy_duplikatow_def by auto
    show "i \<notin> fst ` set g"
      unfolding g sortuj_grupe_set by (rule bez_hasha_poza_grupa [OF assms(2) g'])
  qed
  then show "oznacz_dokladne_duplikaty recs ! i = recs ! i"
    by (rule oznacz_dokladne_poza_grupami)
qed

theorem unhashed_record_untouched_witness:
  "oznacz_dokladne_duplikaty przyklad_hash ! 1 = przyklad_hash ! 1"
proof -
  have "1 < length przyklad_hash" and "hash_sha256 (przyklad_hash ! 1) = []"
    by (simp_all add: przyklad_hash_def rekord_def)
  from unhashed_record_untouched [OF this] show ?thesis by simp
qed

text \<open>
  Claim C10. The counter of the hash pass runs through all extension buckets without
  being reset: its final value is the number of groups with more than one record, the
  list of these groups is the concatenation over the buckets in the order of iteration,
  the k-th group (from zero) carries the number \<open>k + 1\<close> in every id of its members, no
  two different groups carry the same number, and the first number is \<open>01\<close>.
\<close>

theorem group_numbers_sequential:
  "snd (foldl (\<lambda>s kv. krok_rozszerzenie s (snd kv)) (recs, 0) (pliki_wedlug_rozszerzen recs))
     = length (grupy_duplikatow recs)
   \<and> grupy_duplikatow recs
       = concat (map (\<lambda>kv. map sortuj_grupe (filter (\<lambda>g. 1 < length g)
                               (map snd (grupuj (\<lambda>x. hash_sha256 (snd x)) (snd kv)))))
                   (pliki_wedlug_rozszerzen recs))
   \<and> (\<forall>k < length (grupy_duplikatow recs). \<forall>x \<in> set (grupy_duplikatow recs ! k).
         numer_grupy (id_grupy (oznacz_dokladne_duplikaty recs ! fst x)) = fmt02 (k + 1))
   \<and> (\<forall>k < length (grupy_duplikatow recs). \<forall>k' < length (grupy_duplikatow recs).
       \<forall>x \<in> set (grupy_duplikatow recs ! k). \<forall>y \<in> set (grupy_duplikatow recs ! k').
         numer_grupy (id_grupy (oznacz_dokladne_duplikaty recs ! fst x))
           = numer_grupy (id_grupy (oznacz_dokladne_duplikaty recs ! fst y))
         \<longrightarrow> k = k')
   \<and> fmt02 1 = ''01''"
proof (intro conjI)
  show "snd (foldl (\<lambda>s kv. krok_rozszerzenie s (snd kv)) (recs, 0) (pliki_wedlug_rozszerzen recs))
          = length (grupy_duplikatow recs)"
    by (simp add: foldl_krok_rozszerzenie foldl_krok_hash grupy_duplikatow_def grupy_hash_def)
  show "grupy_duplikatow recs
       = concat (map (\<lambda>kv. map sortuj_grupe (filter (\<lambda>g. 1 < length g)
                               (map snd (grupuj (\<lambda>x. hash_sha256 (snd x)) (snd kv)))))
                   (pliki_wedlug_rozszerzen recs))"
    unfolding grupy_duplikatow_def grupy_hash_def by (rule map_filter_concat_map)
  show "\<forall>k < length (grupy_duplikatow recs). \<forall>x \<in> set (grupy_duplikatow recs ! k).
         numer_grupy (id_grupy (oznacz_dokladne_duplikaty recs ! fst x)) = fmt02 (k + 1)"
    using numer_po_oznaczeniu by blast
  show "\<forall>k < length (grupy_duplikatow recs). \<forall>k' < length (grupy_duplikatow recs).
       \<forall>x \<in> set (grupy_duplikatow recs ! k). \<forall>y \<in> set (grupy_duplikatow recs ! k').
         numer_grupy (id_grupy (oznacz_dokladne_duplikaty recs ! fst x))
           = numer_grupy (id_grupy (oznacz_dokladne_duplikaty recs ! fst y))
         \<longrightarrow> k = k'"
  proof (intro allI impI ballI)
    fix k k' x y
    assume "k < length (grupy_duplikatow recs)" "k' < length (grupy_duplikatow recs)"
      "x \<in> set (grupy_duplikatow recs ! k)" "y \<in> set (grupy_duplikatow recs ! k')"
      "numer_grupy (id_grupy (oznacz_dokladne_duplikaty recs ! fst x))
           = numer_grupy (id_grupy (oznacz_dokladne_duplikaty recs ! fst y))"
    then have "fmt02 (k + 1) = fmt02 (k' + 1)"
      by (simp add: numer_po_oznaczeniu)
    then have "k + 1 = k' + 1"
      by (rule fmt02_inj)
    then show "k = k'" by simp
  qed
  show "fmt02 1 = ''01''"
    by (simp add: fmt02_def cyfry.simps cyfra_def char_of_eq_iff)
qed

theorem group_numbers_sequential_witness:
  "numer_grupy (id_grupy (oznacz_dokladne_duplikaty przyklad_hash ! 2)) = ''01''
   \<and> numer_grupy (id_grupy (oznacz_dokladne_duplikaty przyklad_hash ! 4)) = ''02''"
proof -
  have k0: "0 < length (grupy_duplikatow przyklad_hash)"
    and k1: "1 < length (grupy_duplikatow przyklad_hash)"
    by (simp_all add: grupy_przykladu)
  have x0: "(2, przyklad_hash ! 2) \<in> set (grupy_duplikatow przyklad_hash ! 0)"
    and x1: "(4, przyklad_hash ! 4) \<in> set (grupy_duplikatow przyklad_hash ! 1)"
    by (simp_all add: grupy_przykladu)
  note n = group_numbers_sequential [of przyklad_hash, THEN conjunct2, THEN conjunct2, THEN conjunct1, rule_format]
  show ?thesis
    using n [OF k0 x0] n [OF k1 x1] by (simp add: fmt02_1 fmt02_2)
qed

end
